theory Spec2Isabelle
  imports Main
begin

section \<open>Python strings\<close>

text \<open>
  Strings are lists of characters; a character stands for the code point of the same
  number (0 to 255). \<open>py_isspace\<close> is \<open>str.isspace\<close> on one character, which is
  also what \<open>\s\<close> matches in a regular expression on text.
\<close>

definition py_isspace :: "char \<Rightarrow> bool" where
  "py_isspace c = (c \<in> set [CHR 0x09, CHR 0x0A, CHR 0x0B, CHR 0x0C, CHR 0x0D,
                              CHR 0x1C, CHR 0x1D, CHR 0x1E, CHR 0x1F, CHR 0x20,
                              CHR 0x85, CHR 0xA0])"

definition strip :: "string \<Rightarrow> string" where
  "strip s = rev (dropWhile py_isspace (rev (dropWhile py_isspace s)))"

definition startswith :: "string \<Rightarrow> string \<Rightarrow> bool" where
  "startswith s p = (take (length p) s = p)"

fun contains :: "string \<Rightarrow> string \<Rightarrow> bool" where
  "contains [] p = (p = [])"
| "contains (c # cs) p = (startswith (c # cs) p \<or> contains cs p)"

text \<open>\<open>str.lower\<close> on one character: the letters \<open>A\<close> to \<open>Z\<close> (65 to 90)
  and the upper-case letters of the code points 192 to 222 (215 is the multiplication
  sign) have their lower-case letter 32 places further on; every other character is
  kept.\<close>

definition lower_char :: "char \<Rightarrow> char" where
  "lower_char c =
     (let n = (of_char c :: nat)
      in if (65 \<le> n \<and> n \<le> 90) \<or> (192 \<le> n \<and> n \<le> 222 \<and> n \<noteq> 215)
         then char_of (n + 32) else c)"

definition lower :: "string \<Rightarrow> string" where
  "lower s = map lower_char s"

text \<open>A Python value is truthy: a string when it is not empty, an optional one when it is
  a non-empty string.\<close>

definition truthy :: "string option \<Rightarrow> bool" where
  "truthy x = (case x of None \<Rightarrow> False | Some s \<Rightarrow> s \<noteq> [])"

definition text_or_empty :: "string option \<Rightarrow> string" where
  "text_or_empty x = (case x of None \<Rightarrow> [] | Some s \<Rightarrow> s)"

section \<open>Dictionaries\<close>

text \<open>
  A Python dictionary keeps its keys in insertion order, and storing under a key that is
  present replaces the value where it stands. \<open>d[k] = v\<close> is \<open>dict_set d k v\<close>,
  \<open>d.get(k)\<close> is \<open>map_of d k\<close>, \<open>d.items()\<close> is the list itself.
\<close>

type_synonym ('k, 'v) dict = "('k \<times> 'v) list"

fun dict_set :: "('k, 'v) dict \<Rightarrow> 'k \<Rightarrow> 'v \<Rightarrow> ('k, 'v) dict" where
  "dict_set [] k v = [(k, v)]"
| "dict_set ((k', v') # d) k v =
     (if k' = k then (k, v) # d else (k', v') # dict_set d k v)"

definition dict_get :: "('k, 'v) dict \<Rightarrow> 'k \<Rightarrow> 'v \<Rightarrow> 'v" where
  "dict_get d k dflt = (case map_of d k of None \<Rightarrow> dflt | Some v \<Rightarrow> v)"

definition dict_keys :: "('k, 'v) dict \<Rightarrow> 'k list" where
  "dict_keys d = map fst d"

section \<open>The resource store\<close>

text \<open>
  A \<open>.resw\<close> file is read into its \<open>data\<close> elements, in document order. Of one
  element the scripts read the \<open>name\<close> attribute (\<open>data.get('name')\<close>, which may be
  missing), the \<open>value\<close> child and the \<open>comment\<close> child (\<open>find\<close> gives
  \<open>None\<close> when the child is missing), and the text of a child (\<open>None\<close> when it
  is empty). The indentation of the file is not part of the model.
\<close>

record data_elem =
  name :: "string option"
  value_elem :: "string option option"
  comment_elem :: "string option option"

type_synonym store = "data_elem list"

definition status_complete :: string where
  "status_complete = ''status:complete''"

definition status_incomplete :: string where
  "status_incomplete = ''status:incomplete''"

definition status_error_permanent :: string where
  "status_error_permanent = ''status:error:permanent''"

definition status_error_prefix :: string where
  "status_error_prefix = ''status:error:''"

definition get_comment_status :: "data_elem \<Rightarrow> string option" where
  "get_comment_status data_elem =
     (case comment_elem data_elem of
        None \<Rightarrow> None
      | Some txt \<Rightarrow> if truthy txt then Some (strip (text_or_empty txt)) else None)"

definition set_comment_status :: "data_elem \<Rightarrow> string \<Rightarrow> data_elem" where
  "set_comment_status data_elem status = data_elem\<lparr>comment_elem := Some (Some status)\<rparr>"

text \<open>\<open>current_value\<close> of an element: \<open>(value_elem.text or '')\<close>, and \<open>''\<close> when
  there is no \<open>value\<close> child.\<close>

definition current_value_of :: "data_elem \<Rightarrow> string" where
  "current_value_of data_elem =
     (case value_elem data_elem of None \<Rightarrow> [] | Some txt \<Rightarrow> text_or_empty txt)"

text \<open>
  \<open>parse_resw_file\<close>: the entries of a store, name to value, for the elements with a
  non-empty name and a \<open>value\<close> child. (Its second result, name to element, is used by
  no caller.)
\<close>

definition parse_step :: "data_elem \<Rightarrow> (string, string) dict \<Rightarrow> (string, string) dict" where
  "parse_step data entries =
     (case value_elem data of
        None \<Rightarrow> entries
      | Some txt \<Rightarrow> if truthy (name data)
                     then dict_set entries (text_or_empty (name data)) (text_or_empty txt)
                     else entries)"

definition parse_resw_file :: "store \<Rightarrow> (string, string) dict" where
  "parse_resw_file root = fold parse_step root []"

text \<open>
  \<open>tree_data_elements\<close>: name to element, for every element with a non-empty name; an
  element is referred to by its position in the store.
\<close>

definition tde_step :: "nat \<times> data_elem \<Rightarrow> (string, nat) dict \<Rightarrow> (string, nat) dict" where
  "tde_step p elems =
     (if truthy (name (snd p)) then dict_set elems (text_or_empty (name (snd p))) (fst p)
      else elems)"

definition tree_data_elements :: "store \<Rightarrow> (string, nat) dict" where
  "tree_data_elements root = fold tde_step (enumerate 0 root) []"

definition set_status_at :: "store \<Rightarrow> nat \<Rightarrow> string \<Rightarrow> store" where
  "set_status_at root i status = root[i := set_comment_status (root ! i) status]"

section \<open>The status classifier\<close>

definition TECHNICAL_KEYS :: "string list" where
  "TECHNICAL_KEYS = [''AppName'', ''KBComboBoxItem.Content'', ''MBComboBoxItem.Content'',
                     ''GBComboBoxItem.Content'', ''URLPresetButton.Content'']"

text \<open>The test \<open>key == 'AppName' or key in ['KBComboBoxItem.Content', ...]\<close>, written
  out in \<open>find_untranslated_entries\<close> and again in the sweep of \<open>update_resw_file\<close>.\<close>

definition app_or_unit_key :: "string \<Rightarrow> bool" where
  "app_or_unit_key key =
     (key = ''AppName'' \<or> key \<in> set [''KBComboBoxItem.Content'', ''MBComboBoxItem.Content'',
                                       ''GBComboBoxItem.Content''])"

definition mark_complete_if_present :: "(string, nat) dict \<Rightarrow> string \<Rightarrow> store \<Rightarrow> store" where
  "mark_complete_if_present target_data_elements key root =
     (case map_of target_data_elements key of
        None \<Rightarrow> root
      | Some i \<Rightarrow> set_status_at root i status_complete)"

text \<open>
  One round of the loop of \<open>find_untranslated_entries\<close> over
  \<open>english_entries.items()\<close>. The state is the work list \<open>untranslated\<close> and the
  tree whose comments the function sets through \<open>target_data_elements\<close>.
\<close>

definition classify_step ::
  "(string, string) dict \<Rightarrow> (string, nat) dict \<Rightarrow> string \<times> string \<Rightarrow>
   (string, string) dict \<times> store \<Rightarrow> (string, string) dict \<times> store" where
  "classify_step target_entries target_data_elements item st =
     (let key = fst item; english_value = snd item;
          untranslated = fst st; root = snd st
      in if key \<in> set TECHNICAL_KEYS
         then (untranslated, mark_complete_if_present target_data_elements key root)
         else if app_or_unit_key key
         then (untranslated, mark_complete_if_present target_data_elements key root)
         else
           let comment_status =
                 (case map_of target_data_elements key of
                    None \<Rightarrow> None
                  | Some i \<Rightarrow> get_comment_status (root ! i))
           in if comment_status = Some status_complete then (untranslated, root)
              else if truthy comment_status
                      \<and> startswith (text_or_empty comment_status) status_error_permanent
              then (untranslated, root)
              else
                (case map_of target_entries key of
                   None \<Rightarrow> (dict_set untranslated key english_value, root)
                 | Some target_value \<Rightarrow>
                     if target_value \<noteq> english_value
                     then (untranslated, mark_complete_if_present target_data_elements key root)
                     else
                       (case comment_status of
                          None \<Rightarrow> (dict_set untranslated key english_value, root)
                        | Some cs \<Rightarrow>
                            if cs = status_incomplete
                            then (dict_set untranslated key english_value, root)
                            else if startswith cs status_error_prefix
                            then (dict_set untranslated key english_value, root)
                            else (untranslated, root))))"

definition find_untranslated_entries ::
  "(string, string) dict \<Rightarrow> (string, string) dict \<Rightarrow> (string, nat) dict \<Rightarrow> store \<Rightarrow>
   (string, string) dict \<times> store" where
  "find_untranslated_entries english_entries target_entries target_data_elements root =
     fold (classify_step target_entries target_data_elements) english_entries ([], root)"

section \<open>The translation gateway\<close>

text \<open>
  The translation service is outside the program. One call
  \<open>translator.translate(text_clean, dest=target_lang, src='en')\<close> followed by
  \<open>result.text\<close> either gives a text, or raises an \<open>AttributeError\<close>, or raises
  another exception; the string carried is \<open>str(e)\<close>. The service is a function of its
  own state \<open>'t\<close>, which every call may change.
\<close>

datatype response = Translated string | RaisedAttributeError string | RaisedException string

datatype error = InvalidDestinationLanguageError string

type_synonym 't translator = "'t \<Rightarrow> string \<Rightarrow> string \<Rightarrow> response \<times> 't"

text \<open>What \<open>translate_text\<close> gives back: its result (\<open>None\<close> is a failed
  translation) or the exception it raises, the state of the service, the responses the
  service gave in order, and the waits it slept between them, in seconds.\<close>

type_synonym 't attempt_result = "(error + string option) \<times> 't \<times> response list \<times> nat list"

text \<open>\<open>re.sub(r'^\[(HQ|MT):\s*[^\]]+\]\s*', '', text)\<close>: a leading \<open>[HQ:\<close> or
  \<open>[MT:\<close>, at least one character up to the first \<open>]\<close>, that bracket and the white
  space after it are removed.\<close>

definition text_clean_of :: "string \<Rightarrow> string" where
  "text_clean_of text =
     (if startswith text ''[HQ:'' \<or> startswith text ''[MT:''
      then
        (let rest = drop 4 text;
             body = takeWhile (\<lambda>c. c \<noteq> CHR '']'') rest;
             after = dropWhile (\<lambda>c. c \<noteq> CHR '']'') rest
         in if body \<noteq> [] \<and> after \<noteq> [] then dropWhile py_isspace (tl after) else text)
      else text)"

definition api_issue :: "string \<Rightarrow> bool" where
  "api_issue e =
     (contains e ''raise_Exception'' \<or> contains e ''Translator''
      \<or> contains e ''object has no attribute'')"

definition rate_limit_indicators :: "string list" where
  "rate_limit_indicators = [''rate'', ''limit'', ''quota'', ''429'', ''too many'', ''throttle'']"

definition rate_limited :: "string \<Rightarrow> bool" where
  "rate_limited error_str = list_ex (\<lambda>indicator. contains error_str indicator) rate_limit_indicators"

definition invalid_destination :: "string \<Rightarrow> bool" where
  "invalid_destination error_str = contains error_str ''invalid destination language''"

definition retried :: "response \<Rightarrow> nat \<Rightarrow> 't attempt_result \<Rightarrow> 't attempt_result" where
  "retried r wait_time res =
     (case res of (x, t, rs, ws) \<Rightarrow> (x, t, r # rs, wait_time # ws))"

function translate_attempts ::
  "'t translator \<Rightarrow> string \<Rightarrow> string \<Rightarrow> nat \<Rightarrow> nat \<Rightarrow> 't \<Rightarrow> 't attempt_result" where
  "translate_attempts translate text_clean target_lang max_retries attempt t =
     (if attempt < max_retries
      then
        (let r = fst (translate t text_clean target_lang);
             t' = snd (translate t text_clean target_lang)
         in case r of
              Translated translated \<Rightarrow> (Inr (Some translated), t', [r], [])
            | RaisedAttributeError e \<Rightarrow>
                if api_issue e
                then if attempt < max_retries - 1
                     then retried r ((attempt + 1) * 2)
                            (translate_attempts translate text_clean target_lang max_retries
                               (attempt + 1) t')
                     else (Inr None, t', [r], [])
                else (Inr None, t', [r], [])
            | RaisedException e \<Rightarrow>
                if invalid_destination (lower e)
                then (Inl (InvalidDestinationLanguageError
                             (''Invalid destination language: '' @ target_lang)), t', [r], [])
                else if rate_limited (lower e)
                then if attempt < max_retries - 1
                     then retried r ((attempt + 1) * 2)
                            (translate_attempts translate text_clean target_lang max_retries
                               (attempt + 1) t')
                     else (Inr None, t', [r], [])
                else (Inr None, t', [r], []))
      else (Inr None, t, [], []))"
  by pat_completeness auto
termination
  by (relation "measure (\<lambda>(translate, text_clean, target_lang, max_retries, attempt, t).
                           max_retries - attempt)") auto

text \<open>\<open>translate_text\<close>; the translator is \<open>None\<close> when the client library is missing
  or could not be started.\<close>

definition translate_text ::
  "'t translator \<Rightarrow> string \<Rightarrow> string \<Rightarrow> 't option \<Rightarrow> nat \<Rightarrow>
   (error + string option) \<times> 't option \<times> response list \<times> nat list" where
  "translate_text translate text target_lang translator max_retries =
     (case translator of
        None \<Rightarrow> (Inr None, None, [], [])
      | Some t \<Rightarrow>
          (case translate_attempts translate (text_clean_of text) target_lang max_retries 0 t of
             (x, t', rs, ws) \<Rightarrow> (x, Some t', rs, ws)))"

section \<open>Writing a tree and reading it back\<close>

text \<open>
  \<open>tree.write(file_path, encoding='utf-8', xml_declaration=True)\<close> writes every text
  of the tree as it is (only \<open>&\<close>, \<open><\<close> and \<open>>\<close> are escaped), and an element
  whose text is empty or \<open>None\<close> as an empty element. The lines after it read the file
  in text mode and write it again, which turns \<open>\r\n\<close> and a lone \<open>\r\<close> into
  \<open>\n\<close>, as \<open>ET.parse\<close> does with a document; and \<open>ET.parse\<close> gives the text
  \<open>None\<close> for an empty element. The two regular expressions change only the white space
  between \<open></comment>\<close> and \<open></data>\<close>, and \<open>ET.indent\<close> only the white space
  around child elements. An attribute is written with \<open>\r\<close>, \<open>\n\<close> and \<open>\t\<close> as
  character references, so that a name is read back as it was.

  A document on disk is given by the elements that \<open>ET.parse\<close> reads from it:
  \<open>tree_write\<close> is the document that \<open>tree.write\<close> and the lines after it leave.
\<close>

fun universal_newlines :: "string \<Rightarrow> string" where
  "universal_newlines [] = []"
| "universal_newlines [c] = [if c = CHR 0x0D then CHR 0x0A else c]"
| "universal_newlines (c # d # cs) =
     (if c = CHR 0x0D
      then CHR 0x0A # (if d = CHR 0x0A then universal_newlines cs
                       else universal_newlines (d # cs))
      else c # universal_newlines (d # cs))"

definition stored_text :: "string option \<Rightarrow> string option" where
  "stored_text tx =
     (if truthy tx then Some (universal_newlines (text_or_empty tx)) else None)"

definition stored_elem :: "data_elem \<Rightarrow> data_elem" where
  "stored_elem data =
     data\<lparr>value_elem := map_option stored_text (value_elem data),
          comment_elem := map_option stored_text (comment_elem data)\<rparr>"

definition tree_write :: "store \<Rightarrow> store" where
  "tree_write root = map stored_elem root"

text \<open>
  XML cannot hold the characters below \<open>0x20\<close> other than tab, line feed and carriage
  return. \<open>tree.write\<close> writes such a character as it is, in a text and in an
  attribute, and \<open>ET.parse\<close> raises \<open>ParseError\<close> on the document: \<open>ET_parse\<close>
  gives \<open>None\<close> then.
\<close>

definition xml_char :: "char \<Rightarrow> bool" where
  "xml_char c = (let n = (of_char c :: nat) in n = 9 \<or> n = 10 \<or> n = 13 \<or> 32 \<le> n)"

definition xml_text :: "string option \<Rightarrow> bool" where
  "xml_text tx = list_all xml_char (text_or_empty tx)"

definition xml_elem :: "data_elem \<Rightarrow> bool" where
  "xml_elem data =
     (xml_text (name data)
      \<and> (case value_elem data of None \<Rightarrow> True | Some tx \<Rightarrow> xml_text tx)
      \<and> (case comment_elem data of None \<Rightarrow> True | Some tx \<Rightarrow> xml_text tx))"

definition ET_parse :: "store \<Rightarrow> store option" where
  "ET_parse document = (if list_all xml_elem document then Some document else None)"

section \<open>Writing results back: \<open>update_resw_file\<close>\<close>

text \<open>
  One round of the first loop of \<open>update_resw_file\<close>, over \<open>translations.items()\<close>.
  The state is the tree and \<open>tree_data_elements\<close>. The counters the function returns
  are only printed by its caller and are left out.
\<close>

definition new_data_elem ::
  "(string, string) dict \<Rightarrow> string \<Rightarrow> string option \<Rightarrow> data_elem" where
  "new_data_elem english_entries key translated_value =
     \<lparr>name = Some key,
      value_elem = Some (Some (if truthy translated_value then text_or_empty translated_value
                               else dict_get english_entries key [])),
      comment_elem = Some (Some (if \<not> truthy translated_value then status_incomplete
                                 else status_complete))\<rparr>"

text \<open>An element that is present: the safety check against the English value, then the
  value and status for a translation, or the status for a failure.\<close>

definition update_existing ::
  "(string, string) dict \<Rightarrow> (string, string) dict \<Rightarrow> string \<Rightarrow> string option \<Rightarrow>
   data_elem \<Rightarrow> data_elem" where
  "update_existing translation_errors english_entries key translated_value data_elem =
     (let current_value = current_value_of data_elem;
          english_value = dict_get english_entries key []
      in if current_value \<noteq> english_value
         then set_comment_status data_elem status_complete
         else
           (let with_value = (if value_elem data_elem = None
                              then data_elem\<lparr>value_elem := Some None\<rparr> else data_elem)
            in if truthy translated_value
               then set_comment_status (with_value\<lparr>value_elem := Some translated_value\<rparr>)
                      status_complete
               else if translated_value = None
               then
                 (let error_msg = dict_get translation_errors key ''Translation failed''
                  in if error_msg = ''Translation same as English''
                     then set_comment_status with_value status_complete
                     else if english_value = ''Tab''
                     then set_comment_status with_value status_complete
                     else
                       (let comment_status = get_comment_status with_value
                        in if truthy comment_status
                              \<and> startswith (text_or_empty comment_status) status_error_prefix
                           then set_comment_status with_value status_error_permanent
                           else set_comment_status with_value (status_error_prefix @ error_msg)))
               else with_value))"

definition update_step ::
  "(string, string) dict \<Rightarrow> (string, string) dict \<Rightarrow> string \<times> string option \<Rightarrow>
   store \<times> (string, nat) dict \<Rightarrow> store \<times> (string, nat) dict" where
  "update_step translation_errors english_entries item st =
     (let key = fst item; translated_value = snd item;
          root = fst st; tree_data_elements = snd st
      in case map_of tree_data_elements key of
           None \<Rightarrow>
             (root @ [new_data_elem english_entries key translated_value],
              dict_set tree_data_elements key (length root))
         | Some i \<Rightarrow>
             (root[i := update_existing translation_errors english_entries key translated_value
                          (root ! i)],
              tree_data_elements))"

text \<open>The second loop of \<open>update_resw_file\<close>, over every \<open>data\<close> element of the tree:
  the completion sweep. It changes one element at a time and reads nothing else of the
  tree.\<close>

definition sweep_elem :: "(string, string) dict \<Rightarrow> bool \<Rightarrow> data_elem \<Rightarrow> data_elem" where
  "sweep_elem english_entries is_english_file data =
     (if \<not> truthy (name data) \<or> value_elem data = None then data
      else
        (let data_name = text_or_empty (name data)
         in if app_or_unit_key data_name then set_comment_status data status_complete
            else
              (case get_comment_status data of
                 Some comment_status \<Rightarrow>
                   if startswith comment_status status_complete
                      \<or> startswith comment_status status_error_prefix
                   then data
                   else data
               | None \<Rightarrow>
                   if is_english_file then set_comment_status data status_complete
                   else
                     (let current_value = current_value_of data;
                          english_value = dict_get english_entries data_name []
                      in if data_name \<in> set (dict_keys english_entries)
                         then if current_value = english_value
                              then set_comment_status data status_incomplete
                              else set_comment_status data status_complete
                         else set_comment_status data status_incomplete))))"

definition completion_sweep :: "(string, string) dict \<Rightarrow> bool \<Rightarrow> store \<Rightarrow> store" where
  "completion_sweep english_entries is_english_file root =
     map (sweep_elem english_entries is_english_file) root"

text \<open>\<open>update_resw_file\<close> after its first two lines, on the tree \<open>root\<close> that they
  have parsed: the two loops, and the document that is written.\<close>

definition update_parsed_tree ::
  "(string, string option) dict \<Rightarrow> (string, string) dict \<Rightarrow> (string, string) dict \<Rightarrow>
   bool \<Rightarrow> store \<Rightarrow> store" where
  "update_parsed_tree translations translation_errors english_entries is_english_file root =
     tree_write
       (completion_sweep english_entries is_english_file
          (fst (fold (update_step translation_errors english_entries) translations
                  (root, tree_data_elements root))))"

text \<open>\<open>update_resw_file\<close>: the result is the document it leaves, or \<open>None\<close> when
  \<open>ET.parse\<close> raises on the file, which stays as it was.\<close>

definition update_resw_file ::
  "(string, string option) dict \<Rightarrow> (string, string) dict \<Rightarrow> (string, string) dict \<Rightarrow>
   bool \<Rightarrow> store \<Rightarrow> store option" where
  "update_resw_file translations translation_errors english_entries is_english_file document =
     (case ET_parse document of
        None \<Rightarrow> None
      | Some root \<Rightarrow>
          Some (update_parsed_tree translations translation_errors english_entries
                  is_english_file root))"

section \<open>The reconciliation driver\<close>

definition LANG_CODE_MAP :: "(string, string) dict" where
  "LANG_CODE_MAP =
     [(''af-ZA'', ''af''), (''am-ET'', ''am''), (''az-AZ'', ''az''),
      (''bs-BA'', ''bs''), (''ca-ES'', ''ca''), (''ceb-PH'', ''ceb''),
      (''cs-CZ'', ''cs''), (''cy-GB'', ''cy''), (''da-DK'', ''da''),
      (''de-DE'', ''de''), (''es-ES'', ''es''), (''fi-FI'', ''fi''),
      (''fil-PH'', ''tl''), (''fj-FJ'', ''en''), (''fr-FR'', ''fr''),
      (''gl-ES'', ''gl''), (''haw-US'', ''haw''), (''id-ID'', ''id''),
      (''it-IT'', ''it''), (''ja-JP'', ''ja''), (''jv-Latn-ID'', ''jw''),
      (''ky-KG'', ''ky''), (''lb-LU'', ''lb''), (''lo-LA'', ''lo''),
      (''mg-MG'', ''mg''), (''mi-NZ'', ''mi''), (''mk-MK'', ''mk''),
      (''ml-IN'', ''ml''), (''mn-MN'', ''mn''), (''mr-IN'', ''mr''),
      (''ms-MY'', ''ms''), (''mt-MT'', ''mt''), (''my-MM'', ''my''),
      (''ne-NP'', ''ne''), (''nl-NL'', ''nl''), (''no-NO'', ''no''),
      (''nr-Latn-ZA'', ''nr''), (''nso-Latn-ZA'', ''nso''), (''or-IN'', ''or''),
      (''pl-PL'', ''pl''), (''pt-BR'', ''pt''), (''pt-PT'', ''pt''),
      (''ro-RO'', ''ro''), (''ru-RU'', ''ru''), (''rw-RW'', ''rw''),
      (''si-LK'', ''si''), (''sk-SK'', ''sk''), (''sl-SI'', ''sl''),
      (''sm-WS'', ''sm''), (''sn-Latn-ZW'', ''sn''), (''so-SO'', ''so''),
      (''sq-AL'', ''sq''), (''sr-Latn-RS'', ''sr''), (''ss-Latn-ZA'', ''ss''),
      (''st-Latn-ZA'', ''st''), (''su-Latn-ID'', ''su''), (''sv-SE'', ''sv''),
      (''sw-KE'', ''sw''), (''ta-IN'', ''ta''), (''te-IN'', ''te''),
      (''tg-TJ'', ''tg''), (''th-TH'', ''th''), (''tk-TM'', ''tk''),
      (''tn-Latn-ZA'', ''tn''), (''to-TO'', ''to''), (''tr-TR'', ''tr''),
      (''ts-Latn-ZA'', ''ts''), (''ty-Latn-PF'', ''ty''), (''ug-CN'', ''ug''),
      (''uk-UA'', ''uk''), (''ur-PK'', ''ur''), (''uz-UZ'', ''uz''),
      (''ve-Latn-ZA'', ''ve''), (''vi-VN'', ''vi''), (''xh-ZA'', ''xh''),
      (''yo-NG'', ''yo''), (''zh-CN'', ''zh-cn''), (''zh-TW'', ''zh-tw''),
      (''zu-ZA'', ''zu'')]"

text \<open>\<open>LANG_CODE_MAP.get(lang_code, lang_code.split('-')[0])\<close>\<close>

definition target_lang_code_of :: "string \<Rightarrow> string" where
  "target_lang_code_of lang_code =
     dict_get LANG_CODE_MAP lang_code (takeWhile (\<lambda>c. c \<noteq> CHR ''-'') lang_code)"

text \<open>The branch of \<open>main\<close> for a language the service does not support: every element
  whose name is in the work list is marked.\<close>

definition mark_unsupported_elem ::
  "(string, string) dict \<Rightarrow> (string, string) dict \<Rightarrow> data_elem \<Rightarrow> data_elem" where
  "mark_unsupported_elem untranslated english_entries data =
     (case name data of
        None \<Rightarrow> data
      | Some data_name \<Rightarrow>
          if data_name \<in> set (dict_keys untranslated)
          then
            (case value_elem data of
               None \<Rightarrow> data
             | Some txt \<Rightarrow>
                 (let current_value = text_or_empty txt;
                      english_value = dict_get english_entries data_name []
                  in if current_value \<noteq> english_value
                     then set_comment_status data status_complete
                     else if english_value = ''Tab''
                     then set_comment_status data status_complete
                     else set_comment_status data status_error_permanent))
          else data)"

text \<open>
  The variables of the translation loop of \<open>main\<close> for one language: the content of the
  language file, the two dictionaries collected since the last write, the counter of
  failures in a row, and the translation service. \<open>gateway_log\<close> records the calls of
  \<open>translate_text\<close> in order, each with the key it was called for and what it gave
  back (the exception it raised, or its result); the program does not read it.
  \<open>parse_error\<close> is set when \<open>ET.parse\<close> has raised in a call of
  \<open>update_resw_file\<close>: no handler catches the exception, and \<open>main\<close> ends there.
\<close>

record 't driver_state =
  lang_file :: store
  translations_dict :: "(string, string option) dict"
  translation_errors :: "(string, string) dict"
  consecutive_failures :: nat
  translator :: "'t option"
  gateway_log :: "(string \<times> (error + string option)) list"
  parse_error :: bool

definition BATCH_SIZE :: nat where
  "BATCH_SIZE = 5"

definition write_accumulated ::
  "(string, string) dict \<Rightarrow> 't driver_state \<Rightarrow> 't driver_state" where
  "write_accumulated english_entries s =
     (if translations_dict s \<noteq> [] \<or> translation_errors s \<noteq> []
      then
        (case update_resw_file (translations_dict s) (translation_errors s)
                english_entries False (lang_file s) of
           None \<Rightarrow> s\<lparr>parse_error := True\<rparr>
         | Some document \<Rightarrow>
             s\<lparr>lang_file := document, translations_dict := [], translation_errors := []\<rparr>)
      else s)"

text \<open>The handler of \<open>InvalidDestinationLanguageError\<close>: what was collected is
  written, then the current entry, then every entry after it in the work list.\<close>

definition handle_invalid_destination ::
  "(string, string) dict \<Rightarrow> (string, string) dict \<Rightarrow> nat \<Rightarrow> string \<Rightarrow>
   't driver_state \<Rightarrow> 't driver_state" where
  "handle_invalid_destination english_entries untranslated i key s =
     (let s1 = write_accumulated english_entries s
      in if parse_error s1 then s1
         else
           (case update_resw_file (dict_set (translations_dict s1) key None)
                   (dict_set (translation_errors s1) key ''Invalid destination language'')
                   english_entries False (lang_file s1) of
              None \<Rightarrow> s1\<lparr>parse_error := True\<rparr>
            | Some file2 \<Rightarrow>
                (let remaining_entries = drop i untranslated;
                     batch_translations =
                       fold (\<lambda>remaining d. dict_set d (fst remaining) None)
                         remaining_entries [];
                     batch_errors =
                       fold (\<lambda>remaining d. dict_set d (fst remaining)
                                              ''Invalid destination language'')
                         remaining_entries []
                 in case update_resw_file batch_translations batch_errors english_entries
                           False file2 of
                      None \<Rightarrow>
                        s1\<lparr>lang_file := file2, translations_dict := [],
                           translation_errors := [], parse_error := True\<rparr>
                    | Some file3 \<Rightarrow>
                        s1\<lparr>lang_file := file3, translations_dict := [],
                           translation_errors := []\<rparr>)))"

text \<open>The body of the loop after \<open>translate_text\<close> has returned.\<close>

definition record_translation ::
  "string \<Rightarrow> string \<Rightarrow> string option \<Rightarrow> 't driver_state \<Rightarrow> 't driver_state" where
  "record_translation key english_value translated s =
     (case translated of
        None \<Rightarrow>
          s\<lparr>translations_dict := dict_set (translations_dict s) key None,
            translation_errors :=
              dict_set (translation_errors s) key ''Translation service returned None'',
            consecutive_failures :=
              (if consecutive_failures s + 1 \<ge> 5 then 0 else consecutive_failures s + 1)\<rparr>
      | Some text \<Rightarrow>
          if strip text = strip english_value
          then s\<lparr>translations_dict := dict_set (translations_dict s) key None,
                 translation_errors :=
                   dict_set (translation_errors s) key ''Translation same as English'',
                 consecutive_failures := 0\<rparr>
          else s\<lparr>translations_dict := dict_set (translations_dict s) key (Some text),
                 consecutive_failures := 0\<rparr>)"

definition save_if_due ::
  "(string, string) dict \<Rightarrow> (string, string) dict \<Rightarrow> nat \<Rightarrow> 't driver_state \<Rightarrow>
   't driver_state" where
  "save_if_due english_entries untranslated i s =
     (let should_save = (i mod BATCH_SIZE = 0 \<or> i = length untranslated)
      in if should_save then write_accumulated english_entries s else s)"

text \<open>The loop \<open>for i, (key, english_value) in enumerate(untranslated.items(), 1)\<close>,
  from item \<open>i\<close> on. The second result is the \<open>i\<close> at which the loop was left through
  the handler of \<open>InvalidDestinationLanguageError\<close>, if it was. The loop is also left
  when \<open>ET.parse\<close> has raised.\<close>

fun translate_loop ::
  "'t translator \<Rightarrow> (string, string) dict \<Rightarrow> string \<Rightarrow> (string, string) dict \<Rightarrow> nat \<Rightarrow>
   (string \<times> string) list \<Rightarrow> 't driver_state \<Rightarrow> 't driver_state \<times> nat option" where
  "translate_loop translate english_entries target_lang_code untranslated i [] s = (s, None)"
| "translate_loop translate english_entries target_lang_code untranslated i (item # items) s =
     (let key = fst item; english_value = snd item
      in if translator s \<noteq> None
         then
           (case translate_text translate english_value target_lang_code (translator s) 10 of
              (result, t', responses, waits) \<Rightarrow>
                (let s' = s\<lparr>translator := t',
                            gateway_log := gateway_log s @ [(key, result)]\<rparr>
                 in case result of
                      Inl e \<Rightarrow>
                        (handle_invalid_destination english_entries untranslated i key s',
                         Some i)
                    | Inr translated \<Rightarrow>
                        (let s2 = save_if_due english_entries untranslated i
                                    (record_translation key english_value translated s')
                         in if parse_error s2 then (s2, None)
                            else translate_loop translate english_entries target_lang_code
                                   untranslated (i + 1) items s2)))
         else
           (let s2 = save_if_due english_entries untranslated i
                       (s\<lparr>translations_dict := dict_set (translations_dict s) key None,
                          translation_errors :=
                            dict_set (translation_errors s) key ''Translator not available''\<rparr>)
            in if parse_error s2 then (s2, None)
               else translate_loop translate english_entries target_lang_code untranslated
                      (i + 1) items s2))"

text \<open>How the processing of one language ended.\<close>

datatype outcome = NoWork | Unsupported | Done | SkippedInvalidLanguage nat | ParseFailed

record 't run_result =
  final_file :: store
  work_list :: "(string, string) dict"
  run_outcome :: outcome
  run_log :: "(string \<times> (error + string option)) list"
  final_translator :: "'t option"

text \<open>
  The body of the loop of \<open>main\<close> over the languages, for one language file that
  exists; \<open>root\<close> is the tree that line 509 has parsed from it. The call of
  \<open>update_resw_file\<close> at line 513 parses the same file once more and so works on
  \<open>root\<close>. The documents written at the lines 513 and 534 hold the texts that the parser
  has delivered and the status texts of the program, and none from the translation
  service: the parses of the lines 516, 519, 545 and 561 read them as they were written.
  From the translation loop on, a document may hold a translated text, and the parse in
  \<open>update_resw_file\<close> may raise.
\<close>

definition process_language ::
  "'t translator \<Rightarrow> (string, string) dict \<Rightarrow> string \<Rightarrow> 't option \<Rightarrow> store \<Rightarrow> 't run_result" where
  "process_language translate english_entries lang_code tr root =
     (let file1 = update_parsed_tree [] [] english_entries False root;
          target_entries = parse_resw_file file1;
          found = find_untranslated_entries english_entries target_entries
                    (tree_data_elements file1) file1;
          untranslated = fst found;
          file2 = tree_write (snd found)
      in if untranslated = []
         then \<lparr>final_file = file2, work_list = untranslated, run_outcome = NoWork,
               run_log = [], final_translator = tr\<rparr>
         else
           (let target_lang_code = target_lang_code_of lang_code
            in if target_lang_code = ''en'' \<and> lang_code \<noteq> ''en-US''
               then \<lparr>final_file =
                       tree_write (map (mark_unsupported_elem untranslated english_entries) file2),
                     work_list = untranslated, run_outcome = Unsupported,
                     run_log = [], final_translator = tr\<rparr>
               else
                 (case translate_loop translate english_entries target_lang_code untranslated 1
                         untranslated
                         \<lparr>lang_file = file2, translations_dict = [], translation_errors = [],
                          consecutive_failures = 0, translator = tr, gateway_log = [],
                          parse_error = False\<rparr> of
                    (s, stopped) \<Rightarrow>
                      \<lparr>final_file = lang_file s, work_list = untranslated,
                       run_outcome = (if parse_error s then ParseFailed
                                      else case stopped of None \<Rightarrow> Done
                                           | Some i \<Rightarrow> SkippedInvalidLanguage i),
                       run_log = gateway_log s, final_translator = translator s\<rparr>)))"

text \<open>The reference file: \<open>main\<close> parses it (line 467, the tree \<open>root\<close>) and runs
  \<open>update_resw_file\<close> on it with nothing to write.\<close>

definition process_english :: "store \<Rightarrow> store" where
  "process_english root = update_parsed_tree [] [] (parse_resw_file root) True root"

section \<open>Notions used in the properties\<close>

text \<open>The key of an element is its name when that is not empty; the keys of a store are
  unique when no two of its elements have the same key. An entry is an element with a
  key and a \<open>value\<close> child, which is what \<open>parse_resw_file\<close> loads.\<close>

definition key_of :: "data_elem \<Rightarrow> string option" where
  "key_of e = (if truthy (name e) then name e else None)"

definition store_keys :: "store \<Rightarrow> string list" where
  "store_keys root = List.map_filter key_of root"

definition unique_keys :: "store \<Rightarrow> bool" where
  "unique_keys root = distinct (store_keys root)"

definition is_entry :: "data_elem \<Rightarrow> bool" where
  "is_entry e = (truthy (name e) \<and> value_elem e \<noteq> None)"

text \<open>An element has a status marker when the status read from it is not empty;
  \<open>status_starts e p\<close> when the status read from it starts with \<open>p\<close>.\<close>

definition has_status_marker :: "data_elem \<Rightarrow> bool" where
  "has_status_marker e = (case get_comment_status e of None \<Rightarrow> False | Some cs \<Rightarrow> cs \<noteq> [])"

definition status_starts :: "data_elem \<Rightarrow> string \<Rightarrow> bool" where
  "status_starts e p =
     (case get_comment_status e of None \<Rightarrow> False | Some cs \<Rightarrow> startswith cs p)"



text \<open>The first steps of \<open>process_language\<close> by themselves, the sweep and the
  classifier: the work list and the tree with the comments the classifier has set.\<close>

definition classification :: "(string, string) dict \<Rightarrow> store \<Rightarrow> (string, string) dict \<times> store" where
  "classification english_entries root =
     (let file1 = update_parsed_tree [] [] english_entries False root;
          found = find_untranslated_entries english_entries (parse_resw_file file1)
                    (tree_data_elements file1) file1
      in (fst found, tree_write (snd found)))"

text \<open>\<open>main\<close> reads \<open>english_entries\<close> from the reference file.\<close>

definition main_for_language ::
  "'t translator \<Rightarrow> store \<Rightarrow> string \<Rightarrow> 't option \<Rightarrow> store \<Rightarrow> 't run_result" where
  "main_for_language translate english_root lang_code tr root =
     process_language translate (parse_resw_file english_root) lang_code tr root"

text \<open>For the proofs: \<open>str.rstrip\<close>, the second half of \<open>strip\<close>.\<close>

definition rstrip :: "string \<Rightarrow> string" where
  "rstrip s = rev (dropWhile py_isspace (rev s))"

text \<open>For the proofs: a dictionary of element references is sound for a tree when each
  of its values is a position of the tree and the element there has the name it is filed
  under, and complete when it finds every element that has a key.\<close>

definition refs_sound :: "(string, nat) dict \<Rightarrow> store \<Rightarrow> bool" where
  "refs_sound elems root =
     (\<forall>k i. map_of elems k = Some i \<longrightarrow> i < length root \<and> name (root ! i) = Some k)"

definition refs_complete :: "(string, nat) dict \<Rightarrow> store \<Rightarrow> bool" where
  "refs_complete elems root =
     (\<forall>i k. i < length root \<longrightarrow> key_of (root ! i) = Some k \<longrightarrow> map_of elems k = Some i)"

text \<open>
  For the proofs: what the driver hands to \<open>update_resw_file\<close> for a work item, as
  the pair of \<open>translations[key]\<close> and \<open>translation_errors[key]\<close>, given what
  \<open>translate_text\<close> gave back for it (the error text plays no part when there is a
  translation); the same, read off the log of a run; an element after the sweep as it is
  written; and the element that \<open>update_resw_file\<close> leaves for a work item.
\<close>

definition outcome_of :: "string \<Rightarrow> (error + string option) \<Rightarrow> string option \<times> string" where
  "outcome_of english_value x =
     (case x of
        Inl e \<Rightarrow> (None, ''Invalid destination language'')
      | Inr None \<Rightarrow> (None, ''Translation service returned None'')
      | Inr (Some t) \<Rightarrow>
          if strip t = strip english_value then (None, ''Translation same as English'')
          else (Some t, ''Translation failed''))"

definition item_outcome ::
  "bool \<Rightarrow> (string \<times> (error + string option)) list \<Rightarrow> string \<Rightarrow> string \<Rightarrow>
   string option \<times> string" where
  "item_outcome has_translator log key english_value =
     (if \<not> has_translator then (None, ''Translator not available'')
      else case map_of log key of
             None \<Rightarrow> (None, ''Invalid destination language'')
           | Some x \<Rightarrow> outcome_of english_value x)"

definition wsweep :: "(string, string) dict \<Rightarrow> bool \<Rightarrow> data_elem \<Rightarrow> data_elem" where
  "wsweep english_entries is_english_file e =
     stored_elem (sweep_elem english_entries is_english_file e)"

definition written_elem ::
  "(string, string) dict \<Rightarrow> string \<Rightarrow> string option \<times> string \<Rightarrow> data_elem \<Rightarrow> data_elem" where
  "written_elem english_entries key out e =
     wsweep english_entries False
       (update_existing [(key, snd out)] english_entries key (fst out) e)"

text \<open>For the proofs: the element at position \<open>j\<close>, of a key that is on the work
  list, has not been touched yet; or its outcome \<open>out\<close> is known and it is either
  waiting in the dictionaries or written.\<close>

definition untouched :: "string \<Rightarrow> nat \<Rightarrow> data_elem \<Rightarrow> 't driver_state \<Rightarrow> bool" where
  "untouched k j e0 s =
     (j < length (lang_file s) \<and> unique_keys (lang_file s)
      \<and> distinct (map fst (translations_dict s))
      \<and> k \<notin> fst ` set (translations_dict s) \<and> lang_file s ! j = e0)"

definition pending ::
  "string \<Rightarrow> nat \<Rightarrow> data_elem \<Rightarrow> string option \<times> string \<Rightarrow> 't driver_state \<Rightarrow> bool" where
  "pending k j e0 out s =
     (j < length (lang_file s) \<and> unique_keys (lang_file s)
      \<and> distinct (map fst (translations_dict s))
      \<and> lang_file s ! j = e0 \<and> map_of (translations_dict s) k = Some (fst out)
      \<and> (fst out = None \<longrightarrow>
            dict_get (translation_errors s) k ''Translation failed'' = snd out))"

definition written ::
  "(string, string) dict \<Rightarrow> string \<Rightarrow> nat \<Rightarrow> data_elem \<Rightarrow> string option \<times> string \<Rightarrow>
   't driver_state \<Rightarrow> bool" where
  "written en k j e0 out s =
     (j < length (lang_file s) \<and> unique_keys (lang_file s)
      \<and> distinct (map fst (translations_dict s))
      \<and> k \<notin> fst ` set (translations_dict s) \<and> lang_file s ! j = written_elem en k out e0)"

text \<open>For the proofs: where the element of the key \<open>k\<close> stands when the loop is
  about to process \<open>items\<close>.\<close>

definition loop_status ::
  "(string, string) dict \<Rightarrow> string \<Rightarrow> string \<Rightarrow> nat \<Rightarrow> data_elem \<Rightarrow>
   (string \<times> string) list \<Rightarrow> 't driver_state \<Rightarrow> bool" where
  "loop_status en k ev j e0 items s =
     (((k, ev) \<in> set items \<and> untouched k j e0 s)
      \<or> (k \<notin> fst ` set items
          \<and> (translator s \<noteq> None \<longrightarrow> k \<in> fst ` set (gateway_log s))
          \<and> (written en k j e0
                 (item_outcome (translator s \<noteq> None) (gateway_log s) k ev) s
               \<or> (pending k j e0
                     (item_outcome (translator s \<noteq> None) (gateway_log s) k ev) s
                   \<and> items \<noteq> []))))"

text \<open>A translation service for examples: it gives the responses of a list, one per
  call, and fails with an error of no special kind after the last one. Its state is the
  number of calls made.\<close>

definition scripted :: "response list \<Rightarrow> nat translator" where
  "scripted rs t txt lang =
     (if t < length rs then rs ! t else RaisedException ''service unavailable'', Suc t)"

text \<open>Entries for examples: with a status marker, and without one.\<close>

definition entry :: "string \<Rightarrow> string \<Rightarrow> string \<Rightarrow> data_elem" where
  "entry k v status = \<lparr>name = Some k, value_elem = Some (Some v), comment_elem = Some (Some status)\<rparr>"

definition bare_entry :: "string \<Rightarrow> string \<Rightarrow> data_elem" where
  "bare_entry k v = \<lparr>name = Some k, value_elem = Some (Some v), comment_elem = None\<rparr>"

section \<open>Basic facts\<close>

declare translate_attempts.simps [simp del]

lemma map_of_dict_set: "map_of (dict_set d k v) = (map_of d)(k \<mapsto> v)"
  by (induction d) (auto simp: fun_eq_iff)

lemma keys_dict_set_img: "fst ` set (dict_set d k v) = insert k (fst ` set d)"
proof (induction d)
  case Nil
  show ?case by simp
next
  case (Cons p d)
  obtain a b where p: "p = (a, b)" by (cases p)
  show ?case
  proof (cases "a = k")
    case True
    then show ?thesis using p by auto
  next
    case False
    then show ?thesis using p Cons.IH by (simp add: insert_commute)
  qed
qed

lemma distinct_dict_set: "distinct (map fst d) \<Longrightarrow> distinct (map fst (dict_set d k v))"
  by (induction d) (auto simp: keys_dict_set_img)

lemma dict_set_not_Nil: "dict_set d k v \<noteq> []"
  by (cases d) (auto split: if_splits)

lemma strip_status_complete: "strip status_complete = status_complete"
  by (simp add: strip_def status_complete_def py_isspace_def)

lemma strip_status_incomplete: "strip status_incomplete = status_incomplete"
  by (simp add: strip_def status_incomplete_def py_isspace_def)

lemma strip_status_error_permanent: "strip status_error_permanent = status_error_permanent"
  by (simp add: strip_def status_error_permanent_def py_isspace_def)

lemma get_set_status:
  "status \<noteq> [] \<Longrightarrow> get_comment_status (set_comment_status e status) = Some (strip status)"
  by (simp add: get_comment_status_def set_comment_status_def truthy_def text_or_empty_def)

lemma get_set_complete [simp]:
  "get_comment_status (set_comment_status e status_complete) = Some status_complete"
  using get_set_status [of status_complete e]
  by (simp add: strip_status_complete) (simp add: status_complete_def)

lemma get_set_incomplete [simp]:
  "get_comment_status (set_comment_status e status_incomplete) = Some status_incomplete"
  using get_set_status [of status_incomplete e]
  by (simp add: strip_status_incomplete) (simp add: status_incomplete_def)

lemma get_set_permanent [simp]:
  "get_comment_status (set_comment_status e status_error_permanent) = Some status_error_permanent"
  using get_set_status [of status_error_permanent e]
  by (simp add: strip_status_error_permanent) (simp add: status_error_permanent_def)

lemma set_status_fields [simp]:
  "name (set_comment_status e st) = name e"
  "value_elem (set_comment_status e st) = value_elem e"
  "comment_elem (set_comment_status e st) = Some (Some st)"
  "key_of (set_comment_status e st) = key_of e"
  "current_value_of (set_comment_status e st) = current_value_of e"
  "set_comment_status (set_comment_status e st') st = set_comment_status e st"
  by (simp_all add: set_comment_status_def key_of_def current_value_of_def)

subsection \<open>Texts as they are stored\<close>

lemma universal_newlines_no_CR: "CHR 0x0D \<notin> set (universal_newlines s)"
  by (induction s rule: universal_newlines.induct) auto

lemma universal_newlines_fixed: "CHR 0x0D \<notin> set s \<Longrightarrow> universal_newlines s = s"
  by (induction s rule: universal_newlines.induct) auto

lemma universal_newlines_idem [simp]:
  "universal_newlines (universal_newlines s) = universal_newlines s"
  by (simp add: universal_newlines_fixed universal_newlines_no_CR)

lemma universal_newlines_Nil [simp]: "universal_newlines s = [] \<longleftrightarrow> s = []"
  by (induction s rule: universal_newlines.induct) auto

lemma universal_newlines_Cons: "c \<noteq> CHR 0x0D \<Longrightarrow> universal_newlines (c # cs) = c # universal_newlines cs"
  by (cases cs) auto

lemma universal_newlines_no_LF:
  "CHR 0x0A \<notin> set (universal_newlines s) \<Longrightarrow> universal_newlines s = s"
  by (induction s rule: universal_newlines.induct) (auto split: if_splits)

lemma universal_newlines_eq_clean:
  "CHR 0x0D \<notin> set c \<Longrightarrow> CHR 0x0A \<notin> set c \<Longrightarrow> universal_newlines s = c \<longleftrightarrow> s = c"
  using universal_newlines_no_LF [of s] universal_newlines_fixed [of c] by auto

lemma startswith_Cons:
  "startswith (c # cs) p \<longleftrightarrow> (case p of [] \<Rightarrow> True | x # xs \<Rightarrow> c = x \<and> startswith cs xs)"
  by (cases p) (auto simp: startswith_def)

lemma startswith_universal_newlines:
  "CHR 0x0D \<notin> set p \<Longrightarrow> CHR 0x0A \<notin> set p \<Longrightarrow>
   startswith (universal_newlines s) p \<longleftrightarrow> startswith s p"
proof (induction s arbitrary: p rule: universal_newlines.induct)
  case 1
  then show ?case by simp
next
  case (2 c)
  then show ?case by (cases p) (auto simp: startswith_def)
next
  case (3 c d cs)
  show ?case
  proof (cases p)
    case Nil
    then show ?thesis by (simp add: startswith_def)
  next
    case (Cons x xs)
    then have xs: "CHR 0x0D \<notin> set xs" "CHR 0x0A \<notin> set xs" "x \<noteq> CHR 0x0D" "x \<noteq> CHR 0x0A"
      using "3.prems" by auto
    show ?thesis
    proof (cases "c = CHR 0x0D")
      case True
      then show ?thesis using Cons xs by (auto simp: startswith_def)
    next
      case False
      have "startswith (universal_newlines (c # d # cs)) p
              \<longleftrightarrow> c = x \<and> startswith (universal_newlines (d # cs)) xs"
        using False Cons by (simp add: startswith_Cons)
      also have "\<dots> \<longleftrightarrow> c = x \<and> startswith (d # cs) xs"
        using "3.IH"(3) [OF False xs(1,2)] by simp
      also have "\<dots> \<longleftrightarrow> startswith (c # d # cs) p"
        using Cons by (simp add: startswith_Cons [of c])
      finally show ?thesis .
    qed
  qed
qed

lemma isspace_newlines [simp]: "py_isspace (CHR 0x0D)" "py_isspace (CHR 0x0A)"
  by (simp_all add: py_isspace_def)

lemma dropWhile_universal_newlines:
  "dropWhile py_isspace (universal_newlines s) = universal_newlines (dropWhile py_isspace s)"
  by (induction s rule: universal_newlines.induct) auto

lemma list_all_universal_newlines [simp]:
  "list_all py_isspace (universal_newlines s) = list_all py_isspace s"
  by (induction s rule: universal_newlines.induct) auto

lemma rstrip_Cons:
  "rstrip (c # cs) = (if list_all py_isspace (c # cs) then [] else c # rstrip cs)"
  by (auto simp: rstrip_def dropWhile_append list_all_iff)

lemma rstrip_Nil [simp]: "rstrip [] = []"
  by (simp add: rstrip_def)

lemma rstrip_universal_newlines: "rstrip (universal_newlines s) = universal_newlines (rstrip s)"
proof (induction s rule: universal_newlines.induct)
  case 1
  then show ?case by simp
next
  case (2 c)
  then show ?case by (simp add: rstrip_Cons)
next
  case (3 c d cs)
  show ?case
  proof (cases "list_all py_isspace (c # d # cs)")
    case True
    then have "list_all py_isspace (universal_newlines (c # d # cs))"
      by (simp only: list_all_universal_newlines)
    then have "rstrip (universal_newlines (c # d # cs)) = []"
      by (cases "universal_newlines (c # d # cs)") (simp_all add: rstrip_Cons)
    moreover have "rstrip (c # d # cs) = []" using True by (simp add: rstrip_Cons)
    ultimately show ?thesis by simp
  next
    case all: False
    show ?thesis
    proof (cases "c = CHR 0x0D")
      case False
      have l: "rstrip (universal_newlines (c # d # cs)) = c # rstrip (universal_newlines (d # cs))"
        using False all by (simp add: rstrip_Cons)
      have r: "rstrip (c # d # cs) = c # rstrip (d # cs)" using all by (simp add: rstrip_Cons)
      show ?thesis
        unfolding l r using "3.IH"(3) [OF False] False by (simp add: universal_newlines_Cons)
    next
      case cr: True
      then have rest: "\<not> list_all py_isspace (d # cs)" using all by simp
      have r: "rstrip (c # d # cs) = c # d # rstrip cs"
        using all rest by (simp add: rstrip_Cons)
      show ?thesis
      proof (cases "d = CHR 0x0A")
        case True
        then have ncs: "\<not> list_all py_isspace cs" using rest by simp
        have "rstrip (universal_newlines (c # d # cs)) = CHR 0x0A # rstrip (universal_newlines cs)"
          using cr True ncs by (simp add: rstrip_Cons)
        also have "\<dots> = CHR 0x0A # universal_newlines (rstrip cs)"
          using "3.IH"(1) [OF cr True] by simp
        also have "\<dots> = universal_newlines (c # d # rstrip cs)" using cr True by simp
        finally show ?thesis unfolding r .
      next
        case False
        have "rstrip (universal_newlines (c # d # cs))
                = CHR 0x0A # rstrip (universal_newlines (d # cs))"
          using cr False rest by (simp add: rstrip_Cons)
        also have "\<dots> = CHR 0x0A # universal_newlines (rstrip (d # cs))"
          using "3.IH"(2) [OF cr False] by simp
        also have "\<dots> = CHR 0x0A # universal_newlines (d # rstrip cs)"
          using rest by (simp only: rstrip_Cons if_False)
        also have "\<dots> = universal_newlines (c # d # rstrip cs)" using cr False by simp
        finally show ?thesis unfolding r .
      qed
    qed
  qed
qed

lemma strip_universal_newlines: "strip (universal_newlines s) = universal_newlines (strip s)"
proof -
  have "strip x = rstrip (dropWhile py_isspace x)" for x
    by (simp add: strip_def rstrip_def)
  then show ?thesis
    by (simp add: dropWhile_universal_newlines rstrip_universal_newlines)
qed

lemma truthy_stored_text [simp]: "truthy (stored_text tx) = truthy tx"
  by (cases tx) (auto simp: stored_text_def truthy_def text_or_empty_def)

lemma text_stored_text [simp]:
  "text_or_empty (stored_text tx) = universal_newlines (text_or_empty tx)"
  by (cases tx) (auto simp: stored_text_def truthy_def text_or_empty_def)

lemma stored_text_idem [simp]: "stored_text (stored_text tx) = stored_text tx"
  by (auto simp: stored_text_def truthy_def text_or_empty_def split: option.splits)

lemma stored_text_Some:
  "st \<noteq> [] \<Longrightarrow> stored_text (Some st) = Some (universal_newlines st)"
  by (simp add: stored_text_def truthy_def text_or_empty_def)

lemma stored_elem_fields [simp]:
  "name (stored_elem e) = name e"
  "key_of (stored_elem e) = key_of e"
  "is_entry (stored_elem e) = is_entry e"
  "value_elem (stored_elem e) = map_option stored_text (value_elem e)"
  "comment_elem (stored_elem e) = map_option stored_text (comment_elem e)"
  "current_value_of (stored_elem e) = universal_newlines (current_value_of e)"
  by (simp_all add: stored_elem_def key_of_def is_entry_def current_value_of_def
        split: option.splits)

lemma stored_elem_idem [simp]: "stored_elem (stored_elem e) = stored_elem e"
  by (simp add: stored_elem_def option.map_comp comp_def)

lemma status_stored:
  "get_comment_status (stored_elem e) = map_option universal_newlines (get_comment_status e)"
  by (simp add: get_comment_status_def strip_universal_newlines split: option.splits)

lemma status_stored_None [simp]:
  "get_comment_status (stored_elem e) = None \<longleftrightarrow> get_comment_status e = None"
  by (simp add: status_stored)

lemma status_stored_clean:
  "CHR 0x0D \<notin> set c \<Longrightarrow> CHR 0x0A \<notin> set c \<Longrightarrow>
   get_comment_status (stored_elem e) = Some c \<longleftrightarrow> get_comment_status e = Some c"
  by (auto simp: status_stored universal_newlines_eq_clean)

lemma status_starts_stored:
  "CHR 0x0D \<notin> set p \<Longrightarrow> CHR 0x0A \<notin> set p \<Longrightarrow>
   status_starts (stored_elem e) p = status_starts e p"
  by (simp add: status_starts_def status_stored startswith_universal_newlines
        split: option.splits)

lemma status_texts_clean [simp]:
  "CHR 0x0D \<notin> set status_complete" "CHR 0x0A \<notin> set status_complete"
  "CHR 0x0D \<notin> set status_incomplete" "CHR 0x0A \<notin> set status_incomplete"
  "CHR 0x0D \<notin> set status_error_permanent" "CHR 0x0A \<notin> set status_error_permanent"
  "CHR 0x0D \<notin> set status_error_prefix" "CHR 0x0A \<notin> set status_error_prefix"
  by (simp_all add: status_complete_def status_incomplete_def status_error_permanent_def
        status_error_prefix_def)

lemma status_texts_not_Nil [simp]:
  "status_complete \<noteq> []" "status_incomplete \<noteq> []" "status_error_permanent \<noteq> []"
  by (simp_all add: status_complete_def status_incomplete_def status_error_permanent_def)

lemma stored_set_status:
  "st \<noteq> [] \<Longrightarrow>
   stored_elem (set_comment_status e st) = set_comment_status (stored_elem e) (universal_newlines st)"
  by (simp add: stored_elem_def set_comment_status_def stored_text_Some)

lemma stored_set_clean:
  "st \<noteq> [] \<Longrightarrow> CHR 0x0D \<notin> set st \<Longrightarrow>
   stored_elem (set_comment_status e st) = set_comment_status (stored_elem e) st"
  by (simp add: stored_set_status universal_newlines_fixed)

subsection \<open>The sweep on one element\<close>

lemma sweep_elem_fields [simp]:
  "name (sweep_elem en b e) = name e"
  "value_elem (sweep_elem en b e) = value_elem e"
  "key_of (sweep_elem en b e) = key_of e"
  "current_value_of (sweep_elem en b e) = current_value_of e"
  by (simp_all add: sweep_elem_def Let_def key_of_def current_value_of_def split: option.splits)

lemma sweep_elem_idem: "sweep_elem en b (sweep_elem en b e) = sweep_elem en b e"
  by (simp add: sweep_elem_def Let_def split: option.splits)

lemma sweep_elem_marker:
  "is_entry e \<Longrightarrow> get_comment_status e \<noteq> Some [] \<Longrightarrow> has_status_marker (sweep_elem en b e)"
  by (auto simp: sweep_elem_def Let_def is_entry_def has_status_marker_def
        split: option.splits if_splits)

lemma sweep_elem_unchanged:
  "get_comment_status e \<noteq> None \<Longrightarrow> \<not> app_or_unit_key (text_or_empty (name e)) \<Longrightarrow>
   sweep_elem en b e = e"
  by (auto simp: sweep_elem_def Let_def split: option.splits)

lemma sweep_elem_complete:
  "comment_elem e = Some (Some status_complete) \<Longrightarrow> sweep_elem en b e = e"
  by (auto simp: sweep_elem_def Let_def set_comment_status_def get_comment_status_def
        truthy_def status_complete_def split: option.splits)

lemma sweep_elem_is_entry [simp]: "is_entry (sweep_elem en b e) = is_entry e"
  by (simp add: is_entry_def)

lemma sweep_elem_no_marker:
  "is_entry e \<Longrightarrow> get_comment_status e = None \<Longrightarrow>
   get_comment_status (sweep_elem en b e) =
     Some (if b \<or> app_or_unit_key (text_or_empty (name e)) then status_complete
           else if text_or_empty (name e) \<in> set (dict_keys en)
                   \<and> current_value_of e \<noteq> dict_get en (text_or_empty (name e)) []
           then status_complete
           else status_incomplete)"
  by (simp add: sweep_elem_def Let_def is_entry_def)

lemma sweep_elem_status_None:
  "get_comment_status (sweep_elem en b e) = None \<longleftrightarrow> get_comment_status e = None \<and> \<not> is_entry e"
  by (auto simp: sweep_elem_def Let_def is_entry_def split: option.splits)

text \<open>The sweep followed by the writing of the element.\<close>

lemma wsweep_fields [simp]:
  "name (wsweep en b e) = name e"
  "key_of (wsweep en b e) = key_of e"
  "is_entry (wsweep en b e) = is_entry e"
  "value_elem (wsweep en b e) = map_option stored_text (value_elem e)"
  "current_value_of (wsweep en b e) = universal_newlines (current_value_of e)"
  "stored_elem (wsweep en b e) = wsweep en b e"
  by (simp_all add: wsweep_def)

lemma sweep_stored_sweep:
  "sweep_elem en b (stored_elem (sweep_elem en b e)) = stored_elem (sweep_elem en b e)"
proof (cases "\<not> truthy (name e) \<or> value_elem e = None")
  case True
  then show ?thesis by (auto simp: sweep_elem_def)
next
  case entry: False
  show ?thesis
  proof (cases "app_or_unit_key (text_or_empty (name e))")
    case True
    then have "sweep_elem en b e = set_comment_status e status_complete"
      using entry by (auto simp: sweep_elem_def Let_def)
    then have "stored_elem (sweep_elem en b e) = set_comment_status (stored_elem e) status_complete"
      by (simp add: stored_set_clean)
    then show ?thesis by (simp add: sweep_elem_complete)
  next
    case False
    have "is_entry e" using entry by (simp add: is_entry_def)
    then have "get_comment_status (stored_elem (sweep_elem en b e)) \<noteq> None"
      by (simp add: sweep_elem_status_None)
    then show ?thesis using False by (intro sweep_elem_unchanged) simp_all
  qed
qed

lemma wsweep_idem [simp]: "wsweep en b (wsweep en b e) = wsweep en b e"
  by (simp add: wsweep_def sweep_stored_sweep)

lemma wsweep_unchanged:
  "stored_elem e = e \<Longrightarrow> get_comment_status e \<noteq> None \<Longrightarrow>
   \<not> app_or_unit_key (text_or_empty (name e)) \<Longrightarrow> wsweep en b e = e"
  by (simp add: wsweep_def sweep_elem_unchanged)

lemma wsweep_complete:
  "stored_elem e = e \<Longrightarrow> comment_elem e = Some (Some status_complete) \<Longrightarrow> wsweep en b e = e"
  by (simp add: wsweep_def sweep_elem_complete)

lemma wsweep_status_None:
  "get_comment_status (wsweep en b e) = None \<longleftrightarrow> get_comment_status e = None \<and> \<not> is_entry e"
  by (simp add: wsweep_def sweep_elem_status_None)

lemma wsweep_app:
  "is_entry e \<Longrightarrow> app_or_unit_key (text_or_empty (name e)) \<Longrightarrow>
   wsweep en b e = set_comment_status (stored_elem e) status_complete"
  by (auto simp: wsweep_def sweep_elem_def Let_def is_entry_def stored_set_clean)

lemma update_parsed_tree_nothing:
  "update_parsed_tree [] errs en b root = map (wsweep en b) root"
  by (simp add: update_parsed_tree_def tree_write_def completion_sweep_def wsweep_def)

section \<open>The translation gateway retries only what it should\<close>




section \<open>The completion sweep\<close>

lemma xml_char_newlines: "list_all xml_char s \<Longrightarrow> list_all xml_char (universal_newlines s)"
  by (induction s rule: universal_newlines.induct) (auto simp: xml_char_def)

lemma xml_text_stored: "xml_text tx \<Longrightarrow> xml_text (stored_text tx)"
  by (simp add: xml_text_def xml_char_newlines)

lemma xml_elem_stored: "xml_elem e \<Longrightarrow> xml_elem (stored_elem e)"
  by (auto simp: xml_elem_def xml_text_stored split: option.splits)

lemma xml_status_texts: "xml_text (Some status_complete)" "xml_text (Some status_incomplete)"
  by code_simp+

lemma xml_elem_set_status: "xml_elem e \<Longrightarrow> xml_text (Some st) \<Longrightarrow> xml_elem (set_comment_status e st)"
  by (simp add: xml_elem_def set_comment_status_def)

lemma xml_elem_sweep: "xml_elem e \<Longrightarrow> xml_elem (sweep_elem en b e)"
  by (simp add: sweep_elem_def Let_def xml_elem_set_status xml_status_texts split: option.splits)

lemma xml_elem_wsweep: "xml_elem e \<Longrightarrow> xml_elem (wsweep en b e)"
  by (simp add: wsweep_def xml_elem_stored xml_elem_sweep)

lemma update_resw_file_Some:
  "update_resw_file tr errs en b document = Some x \<longleftrightarrow>
     list_all xml_elem document \<and> x = update_parsed_tree tr errs en b document"
  by (auto simp: update_resw_file_def ET_parse_def)

lemma update_resw_file_None:
  "update_resw_file tr errs en b document = None \<longleftrightarrow> \<not> list_all xml_elem document"
  by (auto simp: update_resw_file_def ET_parse_def)

lemma sweep_of_document:
  "update_resw_file [] [] en b document = Some swept \<longleftrightarrow>
     list_all xml_elem document \<and> swept = map (wsweep en b) document"
  by (auto simp: update_resw_file_def ET_parse_def update_parsed_tree_nothing)

lemma wsweep_marker:
  "is_entry e \<Longrightarrow> get_comment_status e \<noteq> Some [] \<Longrightarrow> has_status_marker (wsweep en b e)"
proof -
  assume e: "is_entry e" "get_comment_status e \<noteq> Some []"
  then have "has_status_marker (sweep_elem en b e)" by (rule sweep_elem_marker)
  then show ?thesis
    by (auto simp: has_status_marker_def wsweep_def status_stored split: option.splits)
qed

lemma wsweep_no_marker:
  "is_entry e \<Longrightarrow> get_comment_status e = None \<Longrightarrow>
   get_comment_status (wsweep en b e) =
     Some (if b \<or> app_or_unit_key (text_or_empty (name e)) then status_complete
           else if text_or_empty (name e) \<in> set (dict_keys en)
                   \<and> current_value_of e \<noteq> dict_get en (text_or_empty (name e)) []
           then status_complete
           else status_incomplete)"
  by (simp add: wsweep_def status_stored sweep_elem_no_marker universal_newlines_fixed)

text \<open>
  Claim C8, as amended. The completion sweep is \<open>update_resw_file\<close> with nothing to
  write. Running it again on the document it has left changes nothing. After one sweep,
  every entry whose comment was not blank has a non-empty status marker. An entry that
  had no marker is complete in the reference store; in another store it is complete when
  it is the application name or a unit key, or when its key is in the reference store
  and its value differs from the reference value, and incomplete otherwise. The
  application name and the unit keys are set to complete whatever marker they had. Any
  other element that had a marker, and whose texts are as a document holds them, is left
  as it was.
\<close>

theorem completion_sweep_idempotent:
  assumes "update_resw_file [] [] en is_en document = Some swept"
  shows "update_resw_file [] [] en is_en swept = Some swept
       \<and> length swept = length document
       \<and> (\<forall>i < length document.
             is_entry (document ! i) \<and> get_comment_status (document ! i) \<noteq> Some [] \<longrightarrow>
             has_status_marker (swept ! i))
       \<and> (\<forall>i < length document.
             is_entry (document ! i) \<and> get_comment_status (document ! i) = None \<longrightarrow>
             get_comment_status (swept ! i) =
               Some (if is_en \<or> app_or_unit_key (text_or_empty (name (document ! i)))
                     then status_complete
                     else if text_or_empty (name (document ! i)) \<in> set (dict_keys en)
                             \<and> current_value_of (document ! i)
                                 \<noteq> dict_get en (text_or_empty (name (document ! i))) []
                     then status_complete
                     else status_incomplete))
       \<and> (\<forall>i < length document.
             is_entry (document ! i)
             \<and> app_or_unit_key (text_or_empty (name (document ! i))) \<longrightarrow>
             get_comment_status (swept ! i) = Some status_complete)
       \<and> (\<forall>i < length document.
             get_comment_status (document ! i) \<noteq> None
             \<and> \<not> app_or_unit_key (text_or_empty (name (document ! i)))
             \<and> stored_elem (document ! i) = document ! i \<longrightarrow>
             swept ! i = document ! i)"
proof -
  have ok: "list_all xml_elem document" and sw: "swept = map (wsweep en is_en) document"
    using assms by (simp_all add: sweep_of_document)
  have "list_all xml_elem swept" using ok by (simp add: sw list_all_iff xml_elem_wsweep)
  moreover have "map (wsweep en is_en) swept = swept" by (simp add: sw)
  ultimately have again: "update_resw_file [] [] en is_en swept = Some swept"
    by (simp add: sweep_of_document)
  show ?thesis
    using again
    by (simp add: sw wsweep_marker wsweep_no_marker wsweep_app wsweep_unchanged)
qed

theorem completion_sweep_idempotent_witness:
  "update_resw_file [] [] [(''Greeting'', ''Hello''), (''Farewell'', ''Bye'')] False
       [bare_entry ''Greeting'' ''Hello'', bare_entry ''Farewell'' ''Totsiens'',
        entry ''Thanks'' ''Dankie'' ''status:error:Translation failed'']
     = Some [entry ''Greeting'' ''Hello'' ''status:incomplete'',
             entry ''Farewell'' ''Totsiens'' ''status:complete'',
             entry ''Thanks'' ''Dankie'' ''status:error:Translation failed'']
   \<and> update_resw_file [] [] [(''Greeting'', ''Hello''), (''Farewell'', ''Bye'')] False
       [entry ''Greeting'' ''Hello'' ''status:incomplete'',
        entry ''Farewell'' ''Totsiens'' ''status:complete'',
        entry ''Thanks'' ''Dankie'' ''status:error:Translation failed'']
     = Some [entry ''Greeting'' ''Hello'' ''status:incomplete'',
             entry ''Farewell'' ''Totsiens'' ''status:complete'',
             entry ''Thanks'' ''Dankie'' ''status:error:Translation failed'']
   \<and> is_entry (bare_entry ''Greeting'' ''Hello'')
   \<and> get_comment_status (bare_entry ''Greeting'' ''Hello'') = None
   \<and> has_status_marker (entry ''Greeting'' ''Hello'' ''status:incomplete'')
   \<and> get_comment_status (entry ''Thanks'' ''Dankie'' ''status:error:Translation failed'') \<noteq> None
   \<and> stored_elem (entry ''Thanks'' ''Dankie'' ''status:error:Translation failed'')
       = entry ''Thanks'' ''Dankie'' ''status:error:Translation failed''"
proof -
  have run: "update_resw_file [] [] [(''Greeting'', ''Hello''), (''Farewell'', ''Bye'')] False
       [bare_entry ''Greeting'' ''Hello'', bare_entry ''Farewell'' ''Totsiens'',
        entry ''Thanks'' ''Dankie'' ''status:error:Translation failed'']
     = Some [entry ''Greeting'' ''Hello'' ''status:incomplete'',
             entry ''Farewell'' ''Totsiens'' ''status:complete'',
             entry ''Thanks'' ''Dankie'' ''status:error:Translation failed'']"
    by code_simp
  have facts: "is_entry (bare_entry ''Greeting'' ''Hello'')"
    "get_comment_status (bare_entry ''Greeting'' ''Hello'') = None"
    "has_status_marker (entry ''Greeting'' ''Hello'' ''status:incomplete'')"
    "get_comment_status (entry ''Thanks'' ''Dankie'' ''status:error:Translation failed'') \<noteq> None"
    "stored_elem (entry ''Thanks'' ''Dankie'' ''status:error:Translation failed'')
       = entry ''Thanks'' ''Dankie'' ''status:error:Translation failed''"
    by code_simp+
  from completion_sweep_idempotent [OF run] run facts show ?thesis by simp
qed

theorem completion_sweep_idempotent_counterexample:
  "has_status_marker (entry ''AppName'' ''Grex'' ''status:incomplete'')
   \<and> update_resw_file [] [] [(''AppName'', ''Grex'')] False
        [entry ''AppName'' ''Grex'' ''status:incomplete'']
     = Some [entry ''AppName'' ''Grex'' ''status:complete'']
   \<and> [entry ''AppName'' ''Grex'' ''status:complete'']
       \<noteq> [entry ''AppName'' ''Grex'' ''status:incomplete'']
   \<and> \<not> has_status_marker (bare_entry ''AppName'' ''Grex'')
   \<and> current_value_of (bare_entry ''AppName'' ''Grex'')
       = dict_get [(''AppName'', ''Grex'')] ''AppName'' []
   \<and> update_resw_file [] [] [(''AppName'', ''Grex'')] False [bare_entry ''AppName'' ''Grex'']
     = Some [entry ''AppName'' ''Grex'' ''status:complete'']"
  by code_simp

section \<open>Keys, element references and the update loop\<close>

lemma key_of_Some: "key_of e = Some k \<longleftrightarrow> name e = Some k \<and> k \<noteq> []"
  by (auto simp: key_of_def truthy_def split: option.splits)

lemma store_keys_snoc: "store_keys (xs @ [e]) = store_keys xs @ (case key_of e of None \<Rightarrow> [] | Some k \<Rightarrow> [k])"
  by (simp add: store_keys_def map_filter_def split: option.splits)

lemma store_keys_set: "set (store_keys root) = {k. \<exists>e \<in> set root. key_of e = Some k}"
  by (induction root rule: rev_induct) (auto simp: store_keys_snoc store_keys_def map_filter_def split: option.splits)

lemma store_keys_mem: "k \<in> set (store_keys root) \<longleftrightarrow> (\<exists>i < length root. key_of (root ! i) = Some k)"
  by (auto simp: store_keys_set in_set_conv_nth) (metis nth_mem)

lemma unique_index:
  "unique_keys root \<Longrightarrow> i < length root \<Longrightarrow> j < length root \<Longrightarrow>
   key_of (root ! i) = Some k \<Longrightarrow> key_of (root ! j) = Some k \<Longrightarrow> i = j"
proof (induction root arbitrary: i j rule: rev_induct)
  case Nil
  then show ?case by simp
next
  case (snoc e xs)
  have u: "unique_keys xs" using snoc.prems(1) by (simp add: unique_keys_def store_keys_snoc)
  show ?case
  proof (cases "i < length xs")
    case True
    show ?thesis
    proof (cases "j < length xs")
      case j: True
      from snoc.IH [OF u True j] snoc.prems True j show ?thesis by (simp add: nth_append)
    next
      case False
      then have "j = length xs" using snoc.prems by simp
      then have "key_of e = Some k" using snoc.prems by simp
      moreover have "k \<in> set (store_keys xs)" using True snoc.prems by (auto simp: store_keys_mem nth_append)
      ultimately show ?thesis using snoc.prems(1) by (simp add: unique_keys_def store_keys_snoc)
    qed
  next
    case False
    then have i: "i = length xs" using snoc.prems by simp
    show ?thesis
    proof (cases "j < length xs")
      case True
      have "key_of e = Some k" using snoc.prems i by simp
      moreover have "k \<in> set (store_keys xs)" using True snoc.prems by (auto simp: store_keys_mem nth_append)
      ultimately show ?thesis using snoc.prems(1) by (simp add: unique_keys_def store_keys_snoc)
    next
      case False
      then show ?thesis using i snoc.prems by simp
    qed
  qed
qed

lemma tde_snoc:
  "tree_data_elements (xs @ [e]) = tde_step (length xs, e) (tree_data_elements xs)"
  by (simp add: tree_data_elements_def enumerate_append_eq)

lemma tde_sound:
  "map_of (tree_data_elements root) k = Some i \<Longrightarrow> i < length root \<and> name (root ! i) = Some k \<and> k \<noteq> []"
proof (induction root arbitrary: i rule: rev_induct)
  case Nil
  then show ?case by (simp add: tree_data_elements_def)
next
  case (snoc e xs)
  show ?case
  proof (cases "key_of e = Some k")
    case True
    then have "map_of (tree_data_elements (xs @ [e])) k = Some (length xs)"
      by (simp add: tde_snoc tde_step_def map_of_dict_set key_of_def text_or_empty_def split: if_splits)
    with snoc.prems True show ?thesis by (auto simp: key_of_Some nth_append)
  next
    case False
    then have "map_of (tree_data_elements (xs @ [e])) k = map_of (tree_data_elements xs) k"
      by (auto simp: tde_snoc tde_step_def map_of_dict_set key_of_def truthy_def text_or_empty_def split: option.splits)
    with snoc.prems snoc.IH [of i] show ?thesis by (auto simp: nth_append)
  qed
qed

lemma tde_none: "k \<notin> set (store_keys root) \<Longrightarrow> map_of (tree_data_elements root) k = None"
proof (induction root rule: rev_induct)
  case Nil
  then show ?case by (simp add: tree_data_elements_def)
next
  case (snoc e xs)
  then have "key_of e \<noteq> Some k" "k \<notin> set (store_keys xs)"
    by (auto simp: store_keys_snoc split: option.splits)
  then show ?case using snoc.IH
    by (auto simp: tde_snoc tde_step_def map_of_dict_set key_of_def truthy_def text_or_empty_def split: option.splits if_splits)
qed

lemma tde_some: "k \<in> set (store_keys root) \<Longrightarrow> map_of (tree_data_elements root) k \<noteq> None"
proof (induction root rule: rev_induct)
  case Nil
  then show ?case by (simp add: store_keys_def map_filter_def)
next
  case (snoc e xs)
  show ?case
  proof (cases "key_of e = Some k")
    case True
    then show ?thesis
      by (simp add: tde_snoc tde_step_def map_of_dict_set key_of_def text_or_empty_def split: if_splits)
  next
    case False
    then have "k \<in> set (store_keys xs)" using snoc.prems by (auto simp: store_keys_snoc split: option.splits)
    then show ?thesis using snoc.IH
      by (auto simp: tde_snoc tde_step_def map_of_dict_set)
  qed
qed

lemma tde_unique:
  assumes "unique_keys root" "i < length root" "key_of (root ! i) = Some k"
  shows "map_of (tree_data_elements root) k = Some i"
proof -
  have "k \<in> set (store_keys root)" using assms by (auto simp: store_keys_mem)
  then obtain j where j: "map_of (tree_data_elements root) k = Some j"
    using tde_some by blast
  from tde_sound [OF j] have "j < length root" "key_of (root ! j) = Some k"
    by (simp_all add: key_of_Some)
  with unique_index [OF assms(1) assms(2) this(1) assms(3)] j show ?thesis by simp
qed


lemma refs_sound_tde: "refs_sound (tree_data_elements root) root"
  using tde_sound by (auto simp: refs_sound_def)

lemma refs_complete_tde: "unique_keys root \<Longrightarrow> refs_complete (tree_data_elements root) root"
  using tde_unique by (auto simp: refs_complete_def)

lemma update_existing_name [simp]: "name (update_existing errs en k tv e) = name e"
  by (simp add: update_existing_def Let_def)

lemma update_existing_key_of [simp]: "key_of (update_existing errs en k tv e) = key_of e"
  by (simp add: key_of_def)

lemma new_data_elem_name [simp]: "name (new_data_elem en k tv) = Some k"
  by (simp add: new_data_elem_def)

lemma nth_list_update_gen: "xs[i := x] ! j = (if i = j \<and> i < length xs then x else xs ! j)"
  by (cases "i < length xs") (auto simp: nth_list_update list_update_beyond)

lemma update_step_cases:
  "update_step errs en item (root, tde) =
     (case map_of tde (fst item) of
        None \<Rightarrow> (root @ [new_data_elem en (fst item) (snd item)], dict_set tde (fst item) (length root))
      | Some i \<Rightarrow> (root[i := update_existing errs en (fst item) (snd item) (root ! i)], tde))"
  by (simp add: update_step_def Let_def)

lemma update_step_sound:
  assumes "refs_sound tde root"
  shows "refs_sound (snd (update_step errs en item (root, tde))) (fst (update_step errs en item (root, tde)))"
proof (cases "map_of tde (fst item)")
  case None
  have "i < length root \<and> name (root ! i) = Some k" if "map_of tde k = Some i" for k i
    using that assms by (simp add: refs_sound_def)
  then show ?thesis using None
    by (fastforce simp: update_step_cases refs_sound_def map_of_dict_set nth_append split: if_splits)
next
  case (Some i)
  have "i < length root \<and> name (root ! i) = Some k" if "map_of tde k = Some i" for k i
    using that assms by (simp add: refs_sound_def)
  then show ?thesis using Some
    by (fastforce simp: update_step_cases refs_sound_def nth_list_update)
qed

lemma update_step_complete:
  assumes "refs_complete tde root"
  shows "refs_complete (snd (update_step errs en item (root, tde))) (fst (update_step errs en item (root, tde)))"
proof (cases "map_of tde (fst item)")
  case None
  have c: "map_of tde k = Some i" if "i < length root" "key_of (root ! i) = Some k" for k i
    using that assms by (simp add: refs_complete_def)
  show ?thesis unfolding refs_complete_def
  proof (intro allI impI)
    fix i k
    assume i: "i < length (fst (update_step errs en item (root, tde)))"
      and k: "key_of (fst (update_step errs en item (root, tde)) ! i) = Some k"
    show "map_of (snd (update_step errs en item (root, tde))) k = Some i"
    proof (cases "i < length root")
      case True
      with k None have "key_of (root ! i) = Some k" by (simp add: update_step_cases nth_append)
      from c [OF True this] None have "k \<noteq> fst item" by auto
      with c [OF True \<open>key_of (root ! i) = Some k\<close>] None show ?thesis
        by (simp add: update_step_cases map_of_dict_set)
    next
      case False
      with i None have il: "i = length root" by (simp add: update_step_cases)
      with k None have "k = fst item" by (simp add: update_step_cases key_of_Some)
      with il None show ?thesis by (simp add: update_step_cases map_of_dict_set)
    qed
  qed
next
  case (Some i')
  have c: "map_of tde k = Some i" if "i < length root" "key_of (root ! i) = Some k" for k i
    using that assms by (simp add: refs_complete_def)
  show ?thesis unfolding refs_complete_def
  proof (intro allI impI)
    fix i k
    assume i: "i < length (fst (update_step errs en item (root, tde)))"
      and k: "key_of (fst (update_step errs en item (root, tde)) ! i) = Some k"
    have il: "i < length root" using i Some by (simp add: update_step_cases)
    have "key_of (root ! i) = Some k" using k Some il
      by (cases "i = i'") (simp_all add: update_step_cases)
    from c [OF il this] Some show "map_of (snd (update_step errs en item (root, tde))) k = Some i"
      by (simp add: update_step_cases)
  qed
qed

lemma update_step_length:
  "length root \<le> length (fst (update_step errs en item (root, tde)))"
  by (simp add: update_step_cases split: option.splits)

lemma update_step_frame:
  assumes "refs_sound tde root" "j < length root" "name (root ! j) \<noteq> Some (fst item)"
  shows "fst (update_step errs en item (root, tde)) ! j = root ! j"
  using assms by (auto simp: update_step_cases refs_sound_def nth_append nth_list_update_gen split: option.splits)

lemma update_step_name:
  assumes "j < length root"
  shows "name (fst (update_step errs en item (root, tde)) ! j) = name (root ! j)"
  using assms by (auto simp: update_step_cases nth_append nth_list_update_gen split: option.splits)

lemma update_fold_frame:
  assumes "refs_sound tde root" "j < length root" "\<forall>k \<in> fst ` set tr. name (root ! j) \<noteq> Some k"
  shows "j < length (fst (fold (update_step errs en) tr (root, tde)))
         \<and> fst (fold (update_step errs en) tr (root, tde)) ! j = root ! j"
  using assms
proof (induction tr arbitrary: root tde)
  case Nil
  then show ?case by simp
next
  case (Cons item tr)
  let ?st = "update_step errs en item (root, tde)"
  have s: "refs_sound (snd ?st) (fst ?st)" using Cons.prems(1) by (rule update_step_sound)
  have l: "j < length (fst ?st)" using Cons.prems(2) update_step_length [of root errs en item tde] by simp
  have f: "fst ?st ! j = root ! j" using Cons.prems by (intro update_step_frame) auto
  have "\<forall>k \<in> fst ` set tr. name (fst ?st ! j) \<noteq> Some k" using f Cons.prems(3) by auto
  from Cons.IH [OF s l this] f show ?case by (simp del: update_step_cases)
qed

lemma update_fold_length:
  "length root \<le> length (fst (fold (update_step errs en) tr (root, tde)))"
proof (induction tr arbitrary: root tde)
  case Nil
  then show ?case by simp
next
  case (Cons item tr)
  let ?st = "update_step errs en item (root, tde)"
  from Cons.IH [of "fst ?st" "snd ?st"] update_step_length [of root errs en item tde]
  show ?case by simp
qed

lemma update_fold_name:
  assumes "j < length root"
  shows "name (fst (fold (update_step errs en) tr (root, tde)) ! j) = name (root ! j)"
  using assms
proof (induction tr arbitrary: root tde)
  case Nil
  then show ?case by simp
next
  case (Cons item tr)
  let ?st = "update_step errs en item (root, tde)"
  have l: "j < length (fst ?st)" using Cons.prems update_step_length [of root errs en item tde] by simp
  from Cons.IH [OF l, of "snd ?st"] update_step_name [OF Cons.prems]
  show ?case by simp
qed

lemma update_fold_invs:
  assumes "refs_sound tde root" "refs_complete tde root"
  shows "refs_sound (snd (fold (update_step errs en) tr (root, tde))) (fst (fold (update_step errs en) tr (root, tde)))
       \<and> refs_complete (snd (fold (update_step errs en) tr (root, tde))) (fst (fold (update_step errs en) tr (root, tde)))"
  using assms
proof (induction tr arbitrary: root tde)
  case Nil
  then show ?case by simp
next
  case (Cons item tr)
  let ?st = "update_step errs en item (root, tde)"
  from Cons.IH [OF update_step_sound [OF Cons.prems(1)] update_step_complete [OF Cons.prems(2)]]
  show ?case by simp
qed

lemma update_fold_effect:
  assumes "refs_sound tde root" "refs_complete tde root" "distinct (map fst tr)"
    "(k, tv) \<in> set tr" "j < length root" "key_of (root ! j) = Some k"
  shows "fst (fold (update_step errs en) tr (root, tde)) ! j = update_existing errs en k tv (root ! j)"
  using assms
proof (induction tr arbitrary: root tde)
  case Nil
  then show ?case by simp
next
  case (Cons item tr)
  let ?st = "update_step errs en item (root, tde)"
  have s: "refs_sound (snd ?st) (fst ?st)" using Cons.prems(1) by (rule update_step_sound)
  have c: "refs_complete (snd ?st) (fst ?st)" using Cons.prems(2) by (rule update_step_complete)
  have l: "j < length (fst ?st)" using Cons.prems(5) update_step_length [of root errs en item tde] by simp
  show ?case
  proof (cases "fst item = k")
    case True
    then have item: "item = (k, tv)" using Cons.prems(3,4) by (cases item) (auto simp: image_iff)
    have m: "map_of tde k = Some j" using Cons.prems(2,5,6) by (simp add: refs_complete_def)
    have st: "?st = (root[j := update_existing errs en k tv (root ! j)], tde)"
      using m item by (simp add: update_step_cases)
    have nm: "name (root ! j) = Some k" using Cons.prems(6) by (simp add: key_of_Some)
    have "\<forall>k' \<in> fst ` set tr. name (fst ?st ! j) \<noteq> Some k'"
      using Cons.prems(3,5) item st nm by auto
    from update_fold_frame [OF s l this] st Cons.prems(5)
    show ?thesis by simp
  next
    case False
    have nm: "name (root ! j) = Some k" using Cons.prems(6) by (simp add: key_of_Some)
    have f: "fst ?st ! j = root ! j"
      using Cons.prems(1,5) nm False by (intro update_step_frame) auto
    have "(k, tv) \<in> set tr" using Cons.prems(4) False by auto
    moreover have "distinct (map fst tr)" using Cons.prems(3) by simp
    moreover have "key_of (fst ?st ! j) = Some k" using f Cons.prems(6) by simp
    ultimately show ?thesis using Cons.IH [OF s c _ _ l] f by simp
  qed
qed


lemma unique_keys_from_index:
  assumes "\<And>i j k. i < length root \<Longrightarrow> j < length root \<Longrightarrow> key_of (root ! i) = Some k \<Longrightarrow>
             key_of (root ! j) = Some k \<Longrightarrow> i = j"
  shows "unique_keys root"
  using assms
proof (induction root rule: rev_induct)
  case Nil
  then show ?case by (simp add: unique_keys_def store_keys_def map_filter_def)
next
  case (snoc e xs)
  have "unique_keys xs"
  proof (rule snoc.IH)
    fix i j k assume "i < length xs" "j < length xs" "key_of (xs ! i) = Some k" "key_of (xs ! j) = Some k"
    then show "i = j" using snoc.prems [of i j k] by (simp add: nth_append)
  qed
  moreover have "k \<notin> set (store_keys xs)" if "key_of e = Some k" for k
  proof
    assume "k \<in> set (store_keys xs)"
    then obtain i where "i < length xs" "key_of (xs ! i) = Some k" by (auto simp: store_keys_mem)
    then have "i = length xs" using snoc.prems [of i "length xs" k] that by (simp add: nth_append)
    then show False using \<open>i < length xs\<close> by simp
  qed
  ultimately show ?case by (auto simp: unique_keys_def store_keys_snoc split: option.splits)
qed

lemma refs_complete_unique:
  assumes "refs_complete tde root"
  shows "unique_keys root"
proof (rule unique_keys_from_index)
  fix i j k
  assume "i < length root" "j < length root" "key_of (root ! i) = Some k" "key_of (root ! j) = Some k"
  then have "map_of tde k = Some i" "map_of tde k = Some j"
    using assms unfolding refs_complete_def by blast+
  then show "i = j" by simp
qed

lemma store_keys_sweep [simp]: "store_keys (completion_sweep en b root) = store_keys root"
  by (induction root) (simp_all add: completion_sweep_def store_keys_def map_filter_def)

lemma store_keys_write [simp]: "store_keys (tree_write root) = store_keys root"
  by (induction root) (simp_all add: tree_write_def store_keys_def map_filter_def)

lemma store_keys_wsweep [simp]: "store_keys (map (wsweep en b) root) = store_keys root"
  by (induction root) (simp_all add: store_keys_def map_filter_def)

lemma update_parsed_tree_alt:
  "update_parsed_tree tr errs en b root
     = map (wsweep en b) (fst (fold (update_step errs en) tr (root, tree_data_elements root)))"
  by (simp add: update_parsed_tree_def tree_write_def completion_sweep_def wsweep_def)

lemma urf_length: "length root \<le> length (update_parsed_tree tr errs en b root)"
  by (simp add: update_parsed_tree_alt update_fold_length)

lemma urf_name:
  "j < length root \<Longrightarrow> name (update_parsed_tree tr errs en b root ! j) = name (root ! j)"
  using update_fold_length [of root errs en tr "tree_data_elements root"]
  by (simp add: update_parsed_tree_alt update_fold_name)

lemma urf_frame:
  assumes "j < length root" "\<forall>k \<in> fst ` set tr. name (root ! j) \<noteq> Some k"
  shows "update_parsed_tree tr errs en b root ! j = wsweep en b (root ! j)"
  using update_fold_frame [OF refs_sound_tde assms, of errs en]
  by (simp add: update_parsed_tree_alt)

lemma urf_effect:
  assumes "unique_keys root" "distinct (map fst tr)" "(k, tv) \<in> set tr"
    "j < length root" "key_of (root ! j) = Some k"
  shows "update_parsed_tree tr errs en b root ! j
           = wsweep en b (update_existing errs en k tv (root ! j))"
proof -
  have "j < length (fst (fold (update_step errs en) tr (root, tree_data_elements root)))"
    using update_fold_length [of root errs en tr "tree_data_elements root"] assms(4) by simp
  then show ?thesis
    using update_fold_effect [OF refs_sound_tde refs_complete_tde [OF assms(1)] assms(2-5), of errs en]
    by (simp add: update_parsed_tree_alt)
qed

lemma urf_unique:
  assumes "unique_keys root"
  shows "unique_keys (update_parsed_tree tr errs en b root)"
proof -
  from update_fold_invs [OF refs_sound_tde refs_complete_tde [OF assms], of errs en tr]
  have "unique_keys (fst (fold (update_step errs en) tr (root, tree_data_elements root)))"
    using refs_complete_unique by blast
  then show ?thesis by (simp add: update_parsed_tree_alt unique_keys_def)
qed

lemma urf_stable:
  "e \<in> set (update_parsed_tree tr errs en b root) \<Longrightarrow> wsweep en b e = e"
  by (auto simp: update_parsed_tree_alt)

lemma parse_snoc: "parse_resw_file (xs @ [e]) = parse_step e (parse_resw_file xs)"
  by (simp add: parse_resw_file_def)

lemma parse_distinct: "distinct (map fst (parse_resw_file root))"
  by (induction root rule: rev_induct)
     (auto simp: parse_snoc parse_step_def distinct_dict_set parse_resw_file_def split: option.splits)

lemma parse_step_other:
  "key_of e \<noteq> Some k \<Longrightarrow> map_of (parse_step e d) k = map_of d k"
  by (auto simp: parse_step_def map_of_dict_set key_of_def truthy_def text_or_empty_def split: option.splits)

lemma parse_step_same:
  "key_of e = Some k \<Longrightarrow>
   map_of (parse_step e d) k = (case value_elem e of None \<Rightarrow> map_of d k | Some t \<Rightarrow> Some (text_or_empty t))"
  by (auto simp: parse_step_def map_of_dict_set key_of_def truthy_def text_or_empty_def split: option.splits if_splits)

lemma parse_none: "k \<notin> set (store_keys root) \<Longrightarrow> map_of (parse_resw_file root) k = None"
proof (induction root rule: rev_induct)
  case Nil
  then show ?case by (simp add: parse_resw_file_def)
next
  case (snoc e xs)
  then have "key_of e \<noteq> Some k" "k \<notin> set (store_keys xs)"
    by (auto simp: store_keys_snoc split: option.splits)
  then show ?case using snoc.IH by (simp add: parse_snoc parse_step_other)
qed

lemma parse_unique:
  assumes "unique_keys root" "i < length root" "key_of (root ! i) = Some k"
  shows "map_of (parse_resw_file root) k
           = (case value_elem (root ! i) of None \<Rightarrow> None | Some t \<Rightarrow> Some (text_or_empty t))"
  using assms
proof (induction root rule: rev_induct)
  case Nil
  then show ?case by simp
next
  case (snoc e xs)
  have u: "unique_keys xs" using snoc.prems(1) by (simp add: unique_keys_def store_keys_snoc)
  show ?case
  proof (cases "i < length xs")
    case True
    then have k: "key_of (xs ! i) = Some k" using snoc.prems by (simp add: nth_append)
    then have "k \<in> set (store_keys xs)" using True by (auto simp: store_keys_mem)
    then have "key_of e \<noteq> Some k" using snoc.prems(1) by (auto simp: unique_keys_def store_keys_snoc)
    then show ?thesis using snoc.IH [OF u True k] True by (simp add: parse_snoc parse_step_other nth_append)
  next
    case False
    then have i: "i = length xs" using snoc.prems by simp
    then have k: "key_of e = Some k" using snoc.prems by simp
    then have "k \<notin> set (store_keys xs)" using snoc.prems(1) by (auto simp: unique_keys_def store_keys_snoc)
    then have "map_of (parse_resw_file xs) k = None" by (rule parse_none)
    then show ?thesis using i k by (simp add: parse_snoc parse_step_same split: option.splits)
  qed
qed

lemma parse_keys_nonempty: "k \<in> fst ` set (parse_resw_file root) \<Longrightarrow> k \<noteq> []"
proof (induction root rule: rev_induct)
  case Nil
  then show ?case by (simp add: parse_resw_file_def)
next
  case (snoc e xs)
  then show ?case
    by (auto simp: parse_snoc parse_step_def keys_dict_set_img truthy_def text_or_empty_def split: option.splits if_splits)
qed


lemma classify_step_root:
  "snd (classify_step te tde item (u, root)) = root
   \<or> (\<exists>i. map_of tde (fst item) = Some i
          \<and> snd (classify_step te tde item (u, root)) = set_status_at root i status_complete)"
  by (simp add: classify_step_def Let_def mark_complete_if_present_def split: option.splits)

lemma classify_step_untr:
  "fst (classify_step te tde item (u, root)) = u
   \<or> (fst (classify_step te tde item (u, root)) = dict_set u (fst item) (snd item)
       \<and> fst item \<notin> set TECHNICAL_KEYS)"
  by (simp add: classify_step_def Let_def split: option.splits)

lemma set_status_at_length [simp]: "length (set_status_at root i st) = length root"
  by (simp add: set_status_at_def)

lemma set_status_at_nth:
  "set_status_at root i st ! j = (if i = j \<and> i < length root then set_comment_status (root ! j) st else root ! j)"
  by (simp add: set_status_at_def nth_list_update_gen)

lemma classify_step_length [simp]:
  "length (snd (classify_step te tde item (u, root))) = length root"
  using classify_step_root [of te tde item u root] by auto

lemma classify_step_length' [simp]:
  "length (snd (classify_step te tde item st)) = length (snd st)"
  by (cases st) simp

lemma classify_step_elem:
  "snd (classify_step te tde item (u, root)) ! j = root ! j
   \<or> snd (classify_step te tde item (u, root)) ! j = set_comment_status (root ! j) status_complete"
  using classify_step_root [of te tde item u root] by (auto simp: set_status_at_nth)

lemma classify_step_frame:
  assumes "refs_sound tde root" "j < length root" "name (root ! j) \<noteq> Some (fst item)"
  shows "snd (classify_step te tde item (u, root)) ! j = root ! j"
  using classify_step_root [of te tde item u root] assms
  by (auto simp: set_status_at_nth refs_sound_def)

lemma classify_step_sound:
  assumes "refs_sound tde root"
  shows "refs_sound tde (snd (classify_step te tde item (u, root)))"
  using classify_step_root [of te tde item u root] assms
  by (auto simp: set_status_at_nth refs_sound_def)

lemma classify_step_other_key:
  "k \<noteq> fst item \<Longrightarrow> map_of (fst (classify_step te tde item (u, root))) k = map_of u k"
  using classify_step_untr [of te tde item u root] by (auto simp: map_of_dict_set)

lemma classify_fold_length [simp]:
  "length (snd (fold (classify_step te tde) items (u, root))) = length root"
proof (induction items arbitrary: u root)
  case Nil
  then show ?case by simp
next
  case (Cons item items)
  from Cons.IH [of "fst (classify_step te tde item (u, root))" "snd (classify_step te tde item (u, root))"]
  show ?case by simp
qed

lemma classify_fold_length' [simp]:
  "length (snd (fold (classify_step te tde) items st)) = length (snd st)"
  by (cases st) simp

lemma classify_fold_elem:
  "snd (fold (classify_step te tde) items (u, root)) ! j = root ! j
   \<or> snd (fold (classify_step te tde) items (u, root)) ! j = set_comment_status (root ! j) status_complete"
proof (induction items arbitrary: u root)
  case Nil
  then show ?case by simp
next
  case (Cons item items)
  let ?st = "classify_step te tde item (u, root)"
  from Cons.IH [of "fst ?st" "snd ?st"] classify_step_elem [of te tde item u root j]
  show ?case by auto
qed

lemma classify_fold_frame:
  assumes "refs_sound tde root" "j < length root" "\<forall>k \<in> fst ` set items. name (root ! j) \<noteq> Some k"
  shows "snd (fold (classify_step te tde) items (u, root)) ! j = root ! j"
  using assms
proof (induction items arbitrary: u root)
  case Nil
  then show ?case by simp
next
  case (Cons item items)
  let ?st = "classify_step te tde item (u, root)"
  have f: "snd ?st ! j = root ! j" using Cons.prems by (intro classify_step_frame) auto
  have "snd (fold (classify_step te tde) items (fst ?st, snd ?st)) ! j = snd ?st ! j"
    using Cons.prems f by (intro Cons.IH classify_step_sound) auto
  with f show ?case by simp
qed

lemma classify_fold_other_key:
  "k \<notin> fst ` set items \<Longrightarrow> map_of (fst (fold (classify_step te tde) items (u, root))) k = map_of u k"
proof (induction items arbitrary: u root)
  case Nil
  then show ?case by simp
next
  case (Cons item items)
  let ?st = "classify_step te tde item (u, root)"
  from Cons.IH [of "fst ?st" "snd ?st"] Cons.prems classify_step_other_key [of k item te tde u root]
  show ?case by auto
qed

lemma classify_fold_sound:
  assumes "refs_sound tde root"
  shows "refs_sound tde (snd (fold (classify_step te tde) items (u, root)))"
  using assms
proof (induction items arbitrary: u root)
  case Nil
  then show ?case by simp
next
  case (Cons item items)
  let ?st = "classify_step te tde item (u, root)"
  from Cons.IH [of "snd ?st" "fst ?st"] classify_step_sound [OF Cons.prems]
  show ?case by simp
qed

lemma classify_fold_keys:
  "fst ` set (fst (fold (classify_step te tde) items (u, root)))
     \<subseteq> fst ` set u \<union> (fst ` set items - set TECHNICAL_KEYS)"
proof (induction items arbitrary: u root)
  case Nil
  then show ?case by simp
next
  case (Cons item items)
  let ?st = "classify_step te tde item (u, root)"
  have a: "fst ` set (fst ?st) \<subseteq> fst ` set u \<union> ({fst item} - set TECHNICAL_KEYS)"
  proof (cases "fst ?st = u")
    case True
    then show ?thesis by auto
  next
    case False
    then have "fst ?st = dict_set u (fst item) (snd item)" "fst item \<notin> set TECHNICAL_KEYS"
      using classify_step_untr [of te tde item u root] by auto
    then show ?thesis by (simp add: keys_dict_set_img)
  qed
  have b: "fst ` set (fst (fold (classify_step te tde) items ?st))
             \<subseteq> fst ` set (fst ?st) \<union> (fst ` set items - set TECHNICAL_KEYS)"
    using Cons.IH [of "fst ?st" "snd ?st"] by simp
  have c: "fst ` set (item # items) = insert (fst item) (fst ` set items)" by simp
  have d: "fold (classify_step te tde) (item # items) (u, root)
             = fold (classify_step te tde) items ?st" by simp
  show ?case unfolding c d using a b by blast
qed

lemma classify_fold_distinct:
  "distinct (map fst u) \<Longrightarrow> distinct (map fst (fst (fold (classify_step te tde) items (u, root))))"
proof (induction items arbitrary: u root)
  case Nil
  then show ?case by simp
next
  case (Cons item items)
  let ?st = "classify_step te tde item (u, root)"
  have "distinct (map fst (fst ?st))"
    using classify_step_untr [of te tde item u root] Cons.prems by (auto simp: distinct_dict_set)
  from Cons.IH [OF this, of "snd ?st"] show ?case by simp
qed

lemma classify_step_local:
  assumes "map_of tde k = Some j" "j < length R" "j < length R'" "R ! j = R' ! j"
    "map_of U k = map_of U' k"
  shows "snd (classify_step te tde (k, ev) (U, R)) ! j = snd (classify_step te tde (k, ev) (U', R')) ! j
       \<and> map_of (fst (classify_step te tde (k, ev) (U, R))) k
           = map_of (fst (classify_step te tde (k, ev) (U', R'))) k"
  using assms
  by (simp add: classify_step_def Let_def mark_complete_if_present_def set_status_at_nth
        map_of_dict_set split: option.splits)

lemma classify_key:
  assumes "distinct (map fst en)" "(k, ev) \<in> set en" "refs_sound tde root" "map_of tde k = Some j"
  shows "snd (fold (classify_step te tde) en ([], root)) ! j
           = snd (classify_step te tde (k, ev) ([], root)) ! j
       \<and> map_of (fst (fold (classify_step te tde) en ([], root))) k
           = map_of (fst (classify_step te tde (k, ev) ([], root))) k"
proof -
  from assms(2) obtain xs ys where en: "en = xs @ (k, ev) # ys" by (auto simp: in_set_conv_decomp)
  with assms(1) have kx: "k \<notin> fst ` set xs" and ky: "k \<notin> fst ` set ys" by auto
  have j: "j < length root" and nm: "name (root ! j) = Some k"
    using assms(3,4) by (auto simp: refs_sound_def)
  let ?s1 = "fold (classify_step te tde) xs ([], root)"
  let ?s2 = "classify_step te tde (k, ev) (fst ?s1, snd ?s1)"
  have r1: "snd ?s1 ! j = root ! j"
    using kx nm by (intro classify_fold_frame [OF assms(3) j]) auto
  have u1: "map_of (fst ?s1) k = map_of [] k"
    using kx by (intro classify_fold_other_key)
  have s1: "refs_sound tde (snd ?s1)" by (rule classify_fold_sound [OF assms(3)])
  have l1: "j < length (snd ?s1)" using j by simp
  have loc: "snd ?s2 ! j = snd (classify_step te tde (k, ev) ([], root)) ! j
       \<and> map_of (fst ?s2) k = map_of (fst (classify_step te tde (k, ev) ([], root))) k"
    by (rule classify_step_local [OF assms(4) l1 j r1 u1])
  have s2: "refs_sound tde (snd ?s2)" by (rule classify_step_sound [OF s1])
  have l2: "j < length (snd ?s2)" using j by simp
  have nm2: "name (snd ?s2 ! j) = Some k"
    using classify_step_elem [of te tde "(k, ev)" "fst ?s1" "snd ?s1" j] r1 nm by auto
  have r3: "snd (fold (classify_step te tde) ys (fst ?s2, snd ?s2)) ! j = snd ?s2 ! j"
    using ky nm2 by (intro classify_fold_frame [OF s2 l2]) auto
  have u3: "map_of (fst (fold (classify_step te tde) ys (fst ?s2, snd ?s2))) k = map_of (fst ?s2) k"
    using ky by (intro classify_fold_other_key)
  have "fold (classify_step te tde) en ([], root)
          = fold (classify_step te tde) ys (fst ?s2, snd ?s2)"
    by (simp add: en)
  with r3 u3 loc show ?thesis by simp
qed

section \<open>What the driver leaves alone\<close>

lemma write_accumulated_cases:
  "write_accumulated en s = s
   \<or> write_accumulated en s = s\<lparr>parse_error := True\<rparr>
   \<or> write_accumulated en s
        = s\<lparr>lang_file := update_parsed_tree (translations_dict s) (translation_errors s)
                             en False (lang_file s),
             translations_dict := [], translation_errors := []\<rparr>"
  by (auto simp: write_accumulated_def update_resw_file_Some split: option.splits)

lemma write_accumulated_fields [simp]:
  "translator (write_accumulated en s) = translator s"
  "gateway_log (write_accumulated en s) = gateway_log s"
  using write_accumulated_cases [of en s] by auto

lemma write_accumulated_done:
  assumes "\<not> parse_error (write_accumulated en s)"
  shows "translations_dict (write_accumulated en s) = []"
    and "translation_errors (write_accumulated en s) = []"
    and "translations_dict s \<noteq> [] \<or> translation_errors s \<noteq> [] \<Longrightarrow>
           lang_file (write_accumulated en s)
             = update_parsed_tree (translations_dict s) (translation_errors s) en False
                 (lang_file s)"
    and "translations_dict s = [] \<and> translation_errors s = [] \<Longrightarrow>
           write_accumulated en s = s"
proof -
  let ?w = "update_resw_file (translations_dict s) (translation_errors s) en False (lang_file s)"
  show "translations_dict s = [] \<and> translation_errors s = [] \<Longrightarrow> write_accumulated en s = s"
    by (simp add: write_accumulated_def)
  show "translations_dict (write_accumulated en s) = []"
    using assms by (cases ?w) (auto simp: write_accumulated_def split: if_splits)
  show "translation_errors (write_accumulated en s) = []"
    using assms by (cases ?w) (auto simp: write_accumulated_def split: if_splits)
  show "lang_file (write_accumulated en s)
             = update_parsed_tree (translations_dict s) (translation_errors s) en False
                 (lang_file s)"
    if "translations_dict s \<noteq> [] \<or> translation_errors s \<noteq> []"
  proof (cases ?w)
    case None
    then show ?thesis using assms that by (auto simp: write_accumulated_def)
  next
    case (Some x)
    then have "x = update_parsed_tree (translations_dict s) (translation_errors s) en False
                 (lang_file s)"
      by (simp add: update_resw_file_Some)
    then show ?thesis using Some that by (auto simp: write_accumulated_def)
  qed
qed

lemma write_accumulated_keys:
  "fst ` set (translations_dict (write_accumulated en s)) \<subseteq> fst ` set (translations_dict s)"
  using write_accumulated_cases [of en s] by auto

lemma write_accumulated_file:
  "lang_file (write_accumulated en s) = lang_file s
   \<or> lang_file (write_accumulated en s)
        = update_parsed_tree (translations_dict s) (translation_errors s) en False (lang_file s)"
  using write_accumulated_cases [of en s] by auto

lemma urf_frame_stable:
  assumes "j < length root" "\<forall>k \<in> fst ` set tr. name (root ! j) \<noteq> Some k"
    "wsweep en b (root ! j) = root ! j"
  shows "j < length (update_parsed_tree tr errs en b root)
         \<and> update_parsed_tree tr errs en b root ! j = root ! j"
  using urf_frame [OF assms(1,2), of errs en b] assms(1,3) urf_length [of root tr errs en b]
  by simp

lemma write_accumulated_frame:
  assumes "j < length (lang_file s)"
    "\<forall>k \<in> fst ` set (translations_dict s). name (lang_file s ! j) \<noteq> Some k"
    "wsweep en False (lang_file s ! j) = lang_file s ! j"
  shows "j < length (lang_file (write_accumulated en s))
         \<and> lang_file (write_accumulated en s) ! j = lang_file s ! j"
  using write_accumulated_file [of en s] urf_frame_stable [OF assms] assms(1) by auto

lemma save_if_due_fields [simp]:
  "translator (save_if_due en u i s) = translator s"
  "gateway_log (save_if_due en u i s) = gateway_log s"
  by (simp_all add: save_if_due_def Let_def)

lemma save_if_due_keys:
  "fst ` set (translations_dict (save_if_due en u i s)) \<subseteq> fst ` set (translations_dict s)"
  using write_accumulated_keys [of en s] by (simp add: save_if_due_def Let_def)

lemma save_if_due_frame:
  assumes "j < length (lang_file s)"
    "\<forall>k \<in> fst ` set (translations_dict s). name (lang_file s ! j) \<noteq> Some k"
    "wsweep en False (lang_file s ! j) = lang_file s ! j"
  shows "j < length (lang_file (save_if_due en u i s))
         \<and> lang_file (save_if_due en u i s) ! j = lang_file s ! j"
  using write_accumulated_frame [OF assms] assms(1) by (simp add: save_if_due_def Let_def)

lemma record_translation_fields [simp]:
  "lang_file (record_translation key ev x s) = lang_file s"
  "translator (record_translation key ev x s) = translator s"
  "gateway_log (record_translation key ev x s) = gateway_log s"
  "parse_error (record_translation key ev x s) = parse_error s"
  "fst ` set (translations_dict (record_translation key ev x s))
     = insert key (fst ` set (translations_dict s))"
  by (auto simp: record_translation_def keys_dict_set_img split: option.splits)

lemma batch_keys:
  "fst ` set (fold (\<lambda>remaining d. dict_set d (fst remaining) v) xs d0) = fst ` set d0 \<union> fst ` set xs"
  by (induction xs arbitrary: d0) (auto simp: keys_dict_set_img)

lemma handle_invalid_fields [simp]:
  "translator (handle_invalid_destination en u i key s) = translator s"
  "gateway_log (handle_invalid_destination en u i key s) = gateway_log s"
  by (simp_all add: handle_invalid_destination_def Let_def split: option.splits)

text \<open>The document that the handler leaves is the one it found, or the one of its first,
  second or third call of \<open>update_resw_file\<close>.\<close>

lemma handle_invalid_file:
  "lang_file (handle_invalid_destination en u i key s) = lang_file (write_accumulated en s)
   \<or> lang_file (handle_invalid_destination en u i key s)
        = update_parsed_tree (dict_set (translations_dict (write_accumulated en s)) key None)
            (dict_set (translation_errors (write_accumulated en s)) key
               ''Invalid destination language'')
            en False (lang_file (write_accumulated en s))
   \<or> lang_file (handle_invalid_destination en u i key s)
        = update_parsed_tree
            (fold (\<lambda>remaining d. dict_set d (fst remaining) None) (drop i u) [])
            (fold (\<lambda>remaining d. dict_set d (fst remaining) ''Invalid destination language'')
               (drop i u) [])
            en False
            (update_parsed_tree (dict_set (translations_dict (write_accumulated en s)) key None)
               (dict_set (translation_errors (write_accumulated en s)) key
                  ''Invalid destination language'')
               en False (lang_file (write_accumulated en s)))"
  by (auto simp: handle_invalid_destination_def update_resw_file_Some Let_def
        split: option.splits)

lemma handle_invalid_frame:
  assumes "j < length (lang_file s)"
    "\<forall>k \<in> fst ` set (translations_dict s). name (lang_file s ! j) \<noteq> Some k"
    "name (lang_file s ! j) \<noteq> Some key"
    "\<forall>k \<in> fst ` set u. name (lang_file s ! j) \<noteq> Some k"
    "wsweep en False (lang_file s ! j) = lang_file s ! j"
  shows "j < length (lang_file (handle_invalid_destination en u i key s))
         \<and> lang_file (handle_invalid_destination en u i key s) ! j = lang_file s ! j"
proof -
  let ?s1 = "write_accumulated en s"
  let ?f2 = "update_parsed_tree (dict_set (translations_dict ?s1) key None)
               (dict_set (translation_errors ?s1) key ''Invalid destination language'')
               en False (lang_file ?s1)"
  let ?bt = "fold (\<lambda>remaining d. dict_set d (fst remaining) None) (drop i u) []"
  let ?be = "fold (\<lambda>remaining d. dict_set d (fst remaining) ''Invalid destination language'') (drop i u) []"
  let ?f3 = "update_parsed_tree ?bt ?be en False ?f2"
  have 1: "j < length (lang_file ?s1) \<and> lang_file ?s1 ! j = lang_file s ! j"
    using write_accumulated_frame [OF assms(1,2,5)] .
  have "\<forall>k \<in> fst ` set (translations_dict ?s1). name (lang_file s ! j) \<noteq> Some k"
    using write_accumulated_keys [of en s] assms(2) by blast
  then have 2: "j < length ?f2 \<and> ?f2 ! j = lang_file s ! j"
    using urf_frame_stable [of j "lang_file ?s1" "dict_set (translations_dict ?s1) key None" en False] 1 assms(3,5)
    by (simp add: keys_dict_set_img)
  have "fst ` set ?bt \<subseteq> fst ` set u"
    using set_drop_subset [of i u] by (auto simp: batch_keys)
  then have "\<forall>k \<in> fst ` set ?bt. name (lang_file s ! j) \<noteq> Some k" using assms(4) by blast
  then have "\<forall>k \<in> fst ` set ?bt. name (?f2 ! j) \<noteq> Some k" using 2 by simp
  then have 3: "j < length ?f3 \<and> ?f3 ! j = lang_file s ! j"
    using urf_frame_stable [of j ?f2 ?bt en False ?be] 2 assms(5) by simp
  show ?thesis
    using handle_invalid_file [of en u i key s] 1 2 3 by (elim disjE) simp_all
qed

lemma translate_loop_frame:
  assumes "j < length (lang_file s)"
    "\<forall>k \<in> U. name (lang_file s ! j) \<noteq> Some k"
    "wsweep en False (lang_file s ! j) = lang_file s ! j"
    "fst ` set items \<subseteq> U" "fst ` set (translations_dict s) \<subseteq> U" "fst ` set u \<subseteq> U"
  shows "j < length (lang_file (fst (translate_loop translate en lang u i items s)))
         \<and> lang_file (fst (translate_loop translate en lang u i items s)) ! j = lang_file s ! j"
  using assms
proof (induction items arbitrary: i s)
  case Nil
  then show ?case by simp
next
  case (Cons item items)
  let ?key = "fst item" and ?ev = "snd item"
  have key: "?key \<in> U" using Cons.prems(4) by auto
  show ?case
  proof (cases "translator s")
    case None
    let ?s1 = "s\<lparr>translations_dict := dict_set (translations_dict s) ?key None,
                  translation_errors := dict_set (translation_errors s) ?key ''Translator not available''\<rparr>"
    let ?s2 = "save_if_due en u i ?s1"
    have k1: "fst ` set (translations_dict ?s1) \<subseteq> U"
      using Cons.prems(5) key by (simp add: keys_dict_set_img)
    have f2: "j < length (lang_file ?s2) \<and> lang_file ?s2 ! j = lang_file s ! j"
      using save_if_due_frame [of j ?s1 en u i] Cons.prems(1,2,3) k1 by auto
    have k2: "fst ` set (translations_dict ?s2) \<subseteq> U"
      using save_if_due_keys [of en u i ?s1] k1 by blast
    have "j < length (lang_file (fst (translate_loop translate en lang u (i + 1) items ?s2)))
         \<and> lang_file (fst (translate_loop translate en lang u (i + 1) items ?s2)) ! j = lang_file ?s2 ! j"
      using f2 Cons.prems k2 by (intro Cons.IH) auto
    with f2 None show ?thesis by (simp add: Let_def)
  next
    case (Some t)
    obtain x t' rs ws where tt: "translate_text translate ?ev lang (translator s) 10 = (x, t', rs, ws)"
      by (metis prod_cases4)
    let ?s' = "s\<lparr>translator := t', gateway_log := gateway_log s @ [(?key, x)]\<rparr>"
    show ?thesis
    proof (cases x)
      case (Inl e)
      have "j < length (lang_file (handle_invalid_destination en u i ?key ?s'))
         \<and> lang_file (handle_invalid_destination en u i ?key ?s') ! j = lang_file ?s' ! j"
        using Cons.prems key by (intro handle_invalid_frame) auto
      with Some tt Inl show ?thesis by (simp add: Let_def)
    next
      case (Inr translated)
      let ?s1 = "record_translation ?key ?ev translated ?s'"
      let ?s2 = "save_if_due en u i ?s1"
      have k1: "fst ` set (translations_dict ?s1) \<subseteq> U"
        using Cons.prems(5) key by simp
      have f2: "j < length (lang_file ?s2) \<and> lang_file ?s2 ! j = lang_file s ! j"
        using save_if_due_frame [of j ?s1 en u i] Cons.prems(1,2,3) k1 by auto
      have k2: "fst ` set (translations_dict ?s2) \<subseteq> U"
        using save_if_due_keys [of en u i ?s1] k1 by blast
      have "j < length (lang_file (fst (translate_loop translate en lang u (i + 1) items ?s2)))
           \<and> lang_file (fst (translate_loop translate en lang u (i + 1) items ?s2)) ! j = lang_file ?s2 ! j"
        using f2 Cons.prems k2 by (intro Cons.IH) auto
      with f2 Some tt Inr show ?thesis by (simp add: Let_def)
    qed
  qed
qed

lemma classify_fold_stored:
  assumes "\<forall>e \<in> set root. stored_elem e = e"
  shows "tree_write (snd (fold (classify_step te tde) items (u, root)))
           = snd (fold (classify_step te tde) items (u, root))"
proof -
  let ?r = "snd (fold (classify_step te tde) items (u, root))"
  have "stored_elem (?r ! j) = ?r ! j" if "j < length ?r" for j
  proof -
    have j: "j < length root" using that by simp
    then have "stored_elem (root ! j) = root ! j" using assms by simp
    then show ?thesis
      using classify_fold_elem [of te tde items u root j] by (auto simp: stored_set_clean)
  qed
  then show ?thesis by (simp add: tree_write_def list_eq_iff_nth_eq)
qed

lemma classification_alt:
  "classification en root =
     fold (classify_step (parse_resw_file (map (wsweep en False) root))
             (tree_data_elements (map (wsweep en False) root)))
       en ([], map (wsweep en False) root)"
proof -
  let ?f1 = "map (wsweep en False) root"
  let ?found = "fold (classify_step (parse_resw_file ?f1) (tree_data_elements ?f1)) en ([], ?f1)"
  have "tree_write (snd ?found) = snd ?found"
    by (rule classify_fold_stored) simp
  then show ?thesis
    by (simp add: classification_def find_untranslated_entries_def update_parsed_tree_nothing
          Let_def)
qed

lemma classification_length [simp]: "length (snd (classification en root)) = length root"
  by (simp add: classification_alt)

lemma classification_elem:
  assumes "j < length root"
  shows "snd (classification en root) ! j = wsweep en False (root ! j)
       \<or> snd (classification en root) ! j
            = set_comment_status (wsweep en False (root ! j)) status_complete"
  using classify_fold_elem [of "parse_resw_file (map (wsweep en False) root)"
          "tree_data_elements (map (wsweep en False) root)" en "[]"
          "map (wsweep en False) root" j] assms
  by (simp add: classification_alt)

lemma classification_name [simp]:
  "j < length root \<Longrightarrow> name (snd (classification en root) ! j) = name (root ! j)"
  using classification_elem [of j root en] by auto

lemma classification_value [simp]:
  "j < length root \<Longrightarrow>
   value_elem (snd (classification en root) ! j) = map_option stored_text (value_elem (root ! j))"
  using classification_elem [of j root en] by auto

lemma classification_current_value [simp]:
  "j < length root \<Longrightarrow>
   current_value_of (snd (classification en root) ! j)
     = universal_newlines (current_value_of (root ! j))"
  using classification_elem [of j root en] by auto

lemma classification_stored:
  "j < length root \<Longrightarrow>
   stored_elem (snd (classification en root) ! j) = snd (classification en root) ! j"
  using classification_elem [of j root en] by (auto simp: stored_set_clean)

lemma classification_stable:
  "j < length root \<Longrightarrow>
   wsweep en False (snd (classification en root) ! j) = snd (classification en root) ! j"
  using classification_elem [of j root en]
  by (auto simp: wsweep_complete stored_set_clean)

lemma classification_keys:
  "fst ` set (fst (classification en root)) \<subseteq> fst ` set en - set TECHNICAL_KEYS"
  using classify_fold_keys [of "parse_resw_file (map (wsweep en False) root)"
          "tree_data_elements (map (wsweep en False) root)" en "[]"
          "map (wsweep en False) root"]
  by (simp add: classification_alt)

lemma classification_distinct: "distinct (map fst (fst (classification en root)))"
  by (simp add: classification_alt classify_fold_distinct)


lemma mark_unsupported_frame:
  "\<forall>k \<in> fst ` set u. name e \<noteq> Some k \<Longrightarrow> mark_unsupported_elem u en e = e"
  by (auto simp: mark_unsupported_elem_def dict_keys_def split: option.splits)

lemma process_language_unfold:
  "process_language T en lang tr root =
     (if fst (classification en root) = []
      then \<lparr>final_file = snd (classification en root), work_list = fst (classification en root),
             run_outcome = NoWork, run_log = [], final_translator = tr\<rparr>
      else if target_lang_code_of lang = ''en'' \<and> lang \<noteq> ''en-US''
      then \<lparr>final_file = tree_write (map (mark_unsupported_elem (fst (classification en root)) en)
                                        (snd (classification en root))),
             work_list = fst (classification en root),
             run_outcome = Unsupported, run_log = [], final_translator = tr\<rparr>
      else
        (case translate_loop T en (target_lang_code_of lang) (fst (classification en root)) 1
                (fst (classification en root))
                \<lparr>lang_file = snd (classification en root), translations_dict = [],
                  translation_errors = [], consecutive_failures = 0, translator = tr,
                  gateway_log = [], parse_error = False\<rparr> of
           (s, stopped) \<Rightarrow>
             \<lparr>final_file = lang_file s, work_list = fst (classification en root),
              run_outcome = (if parse_error s then ParseFailed
                             else case stopped of None \<Rightarrow> Done
                                  | Some i \<Rightarrow> SkippedInvalidLanguage i),
              run_log = gateway_log s, final_translator = translator s\<rparr>))"
  by (simp add: process_language_def classification_def Let_def)

lemma process_language_work_list [simp]:
  "work_list (process_language translate en lang tr root) = fst (classification en root)"
  by (simp add: process_language_unfold split: prod.splits)

lemma run_frame:
  assumes "j < length root"
    "\<forall>k \<in> fst ` set (fst (classification en root)). name (root ! j) \<noteq> Some k"
  shows "j < length (final_file (process_language translate en lang tr root))
       \<and> final_file (process_language translate en lang tr root) ! j
           = snd (classification en root) ! j"
proof -
  let ?u = "fst (classification en root)" and ?f2 = "snd (classification en root)"
  let ?s0 = "\<lparr>lang_file = ?f2, translations_dict = [], translation_errors = [],
               consecutive_failures = 0, translator = tr, gateway_log = [],
               parse_error = False\<rparr>"
  let ?code = "target_lang_code_of lang"
  have nm: "\<forall>k \<in> fst ` set ?u. name (?f2 ! j) \<noteq> Some k" using assms by simp
  have loop: "j < length (lang_file (fst (translate_loop translate en ?code ?u 1 ?u ?s0)))
       \<and> lang_file (fst (translate_loop translate en ?code ?u 1 ?u ?s0)) ! j = lang_file ?s0 ! j"
    using assms(1) nm classification_stable [OF assms(1), of en]
    by (intro translate_loop_frame [where U = "fst ` set ?u"]) auto
  have "final_file (process_language translate en lang tr root) =
        (if ?u = [] then ?f2
         else if ?code = ''en'' \<and> lang \<noteq> ''en-US''
         then tree_write (map (mark_unsupported_elem ?u en) ?f2)
         else lang_file (fst (translate_loop translate en ?code ?u 1 ?u ?s0)))"
    by (simp add: process_language_unfold split: prod.splits)
  then show ?thesis
    using loop assms(1) nm classification_stored [OF assms(1), of en]
    by (auto simp: mark_unsupported_frame tree_write_def)
qed

section \<open>Evaluation of examples\<close>

lemmas notion_defs =
  unique_keys_def store_keys_def List.map_filter_def key_of_def is_entry_def
  has_status_marker_def status_starts_def

lemmas small_defs =
  entry_def bare_entry_def parse_resw_file_def parse_step_def get_comment_status_def
  set_comment_status_def current_value_of_def truthy_def text_or_empty_def dict_get_def
  dict_keys_def strip_def py_isspace_def startswith_def app_or_unit_key_def TECHNICAL_KEYS_def
  status_complete_def status_incomplete_def status_error_permanent_def status_error_prefix_def
  stored_elem_def stored_text_def

text \<open>Runs of one language on small stores, evaluated once.\<close>

lemma run_second_failure:
  "main_for_language (scripted []) [bare_entry ''Greeting'' ''Hello''] ''af-ZA'' (Some 0)
         [entry ''Greeting'' ''Hello'' ''status:error:Translation service returned None'']
       = \<lparr>final_file = [entry ''Greeting'' ''Hello'' ''status:error:permanent''],
           work_list = [(''Greeting'', ''Hello'')], run_outcome = Done,
           run_log = [(''Greeting'', Inr None)], final_translator = Some 1\<rparr>"
  by code_simp

lemma run_tab_failure:
  "main_for_language (scripted []) [bare_entry ''TabKey'' ''Tab''] ''af-ZA'' (Some 0)
         [entry ''TabKey'' ''Tab'' ''status:error:Translation service returned None'']
       = \<lparr>final_file = [entry ''TabKey'' ''Tab'' ''status:complete''],
           work_list = [(''TabKey'', ''Tab'')], run_outcome = Done,
           run_log = [(''TabKey'', Inr None)], final_translator = Some 1\<rparr>"
  by code_simp

lemma run_tab_unsupported:
  "main_for_language (scripted []) [bare_entry ''TabKey'' ''Tab''] ''fj-FJ'' (Some 0)
         [entry ''TabKey'' ''Tab'' ''status:error:Translation service returned None'']
       = \<lparr>final_file = [entry ''TabKey'' ''Tab'' ''status:complete''],
           work_list = [(''TabKey'', ''Tab'')], run_outcome = Unsupported,
           run_log = [], final_translator = Some 0\<rparr>"
  by code_simp

lemma run_invalid_language:
  "main_for_language
         (scripted [Translated ''Goeie dag'', RaisedException ''invalid destination language''])
         [bare_entry ''Greeting'' ''Hello'', bare_entry ''Farewell'' ''Bye'',
          bare_entry ''Thanks'' ''Thank you'']
         ''af-ZA'' (Some 0)
         [entry ''Greeting'' ''Hello'' ''status:incomplete'',
          entry ''Farewell'' ''Bye'' ''status:error:Translation service returned None'',
          entry ''Thanks'' ''Thank you'' ''status:incomplete'']
       = \<lparr>final_file =
             [entry ''Greeting'' ''Goeie dag'' ''status:complete'',
              entry ''Farewell'' ''Bye'' ''status:error:permanent'',
              entry ''Thanks'' ''Thank you'' ''status:error:Invalid destination language''],
           work_list = [(''Greeting'', ''Hello''), (''Farewell'', ''Bye''),
                        (''Thanks'', ''Thank you'')],
           run_outcome = SkippedInvalidLanguage 2,
           run_log = [(''Greeting'', Inr (Some ''Goeie dag'')),
                      (''Farewell'', Inl (InvalidDestinationLanguageError
                                            ''Invalid destination language: af''))],
           final_translator = Some 2\<rparr>"
  by code_simp

lemma run_other_case:
  "main_for_language (scripted [Translated ''hello'']) [bare_entry ''Greeting'' ''Hello'']
         ''af-ZA'' (Some 0) [entry ''Greeting'' ''Hello'' ''status:incomplete'']
       = \<lparr>final_file = [entry ''Greeting'' ''hello'' ''status:complete''],
           work_list = [(''Greeting'', ''Hello'')], run_outcome = Done,
           run_log = [(''Greeting'', Inr (Some ''hello''))], final_translator = Some 1\<rparr>"
  by code_simp

lemma run_trailing_space:
  "main_for_language (scripted [Translated ''Hello '']) [bare_entry ''Greeting'' ''Hello'']
         ''af-ZA'' (Some 0) [entry ''Greeting'' ''Hello'' ''status:incomplete'']
       = \<lparr>final_file = [entry ''Greeting'' ''Hello'' ''status:complete''],
           work_list = [(''Greeting'', ''Hello'')], run_outcome = Done,
           run_log = [(''Greeting'', Inr (Some ''Hello ''))], final_translator = Some 1\<rparr>"
  by code_simp



lemma run_technical:
  "main_for_language (scripted [Translated ''Totsiens''])
         [bare_entry ''URLPresetButton.Content'' ''URL'', bare_entry ''Farewell'' ''Bye'']
         ''af-ZA'' (Some 0)
         [entry ''URLPresetButton.Content'' ''URL'' ''status:incomplete'',
          entry ''Farewell'' ''Bye'' ''status:incomplete'']
       = \<lparr>final_file = [entry ''URLPresetButton.Content'' ''URL'' ''status:complete'',
                         entry ''Farewell'' ''Totsiens'' ''status:complete''],
           work_list = [(''Farewell'', ''Bye'')], run_outcome = Done,
           run_log = [(''Farewell'', Inr (Some ''Totsiens''))], final_translator = Some 1\<rparr>"
  by code_simp

lemma run_complete_kept:
  "main_for_language (scripted [Translated ''Totsiens''])
         [bare_entry ''Greeting'' ''Hello'', bare_entry ''Farewell'' ''Bye'']
         ''af-ZA'' (Some 0)
         [entry ''Greeting'' ''Hello'' ''status:complete'',
          entry ''Farewell'' ''Bye'' ''status:incomplete'']
       = \<lparr>final_file = [entry ''Greeting'' ''Hello'' ''status:complete'',
                         entry ''Farewell'' ''Totsiens'' ''status:complete''],
           work_list = [(''Farewell'', ''Bye'')], run_outcome = Done,
           run_log = [(''Farewell'', Inr (Some ''Totsiens''))], final_translator = Some 1\<rparr>"
  by code_simp

lemma run_carriage_return:
  "main_for_language (scripted []) [bare_entry ''Greeting'' ''Good day''] ''af-ZA'' (Some 0)
         [entry ''Greeting'' (''Goeie'' @ [CHR 0x0D] @ ''dag'') ''status:complete'']
       = \<lparr>final_file = [entry ''Greeting'' (''Goeie'' @ [CHR 0x0A] @ ''dag'') ''status:complete''],
           work_list = [], run_outcome = NoWork, run_log = [], final_translator = Some 0\<rparr>"
  by code_simp

lemma run_divergent:
  "main_for_language (scripted []) [bare_entry ''Greeting'' ''Hello''] ''af-ZA'' (Some 0)
         [entry ''Greeting'' ''Goeie dag'' ''status:error:Translation failed'']
       = \<lparr>final_file = [entry ''Greeting'' ''Goeie dag'' ''status:complete''],
           work_list = [], run_outcome = NoWork, run_log = [], final_translator = Some 0\<rparr>"
  by code_simp

lemma run_divergent_permanent:
  "main_for_language (scripted []) [bare_entry ''Greeting'' ''Hello''] ''af-ZA'' (Some 0)
         [entry ''Greeting'' ''Goeie dag'' ''status:error:permanent'']
       = \<lparr>final_file = [entry ''Greeting'' ''Goeie dag'' ''status:error:permanent''],
           work_list = [], run_outcome = NoWork, run_log = [], final_translator = Some 0\<rparr>"
  by code_simp

lemma not_in_keys_map_of: "k \<notin> fst ` set d \<longleftrightarrow> map_of d k = None"
  by (simp add: map_of_eq_None_iff)

section \<open>Keys of the target store that the reference store does not have\<close>




lemma classification_key:
  assumes "unique_keys root" "j < length root" "key_of (root ! j) = Some k"
    "distinct (map fst en)" "(k, ev) \<in> set en"
  defines "f1 \<equiv> map (wsweep en False) root"
  shows "map_of (tree_data_elements f1) k = Some j"
    and "map_of (parse_resw_file f1) k
           = (case value_elem (root ! j) of None \<Rightarrow> None
              | Some t \<Rightarrow> Some (universal_newlines (text_or_empty t)))"
    and "f1 ! j = wsweep en False (root ! j)"
    and "snd (classification en root) ! j
           = snd (classify_step (parse_resw_file f1) (tree_data_elements f1) (k, ev) ([], f1)) ! j"
    and "map_of (fst (classification en root)) k
           = map_of (fst (classify_step (parse_resw_file f1) (tree_data_elements f1) (k, ev) ([], f1))) k"
proof -
  have u: "unique_keys f1" using assms(1) by (simp add: f1_def unique_keys_def)
  have l: "j < length f1" using assms(2) by (simp add: f1_def)
  show e: "f1 ! j = wsweep en False (root ! j)"
    using assms(2) by (simp add: f1_def)
  have k: "key_of (f1 ! j) = Some k" using e assms(3) by simp
  show m: "map_of (tree_data_elements f1) k = Some j" by (rule tde_unique [OF u l k])
  show "map_of (parse_resw_file f1) k
           = (case value_elem (root ! j) of None \<Rightarrow> None
              | Some t \<Rightarrow> Some (universal_newlines (text_or_empty t)))"
    using parse_unique [OF u l k] e by (simp split: option.splits)
  from classify_key [OF assms(4,5) refs_sound_tde m, of "parse_resw_file f1"]
  show "snd (classification en root) ! j
           = snd (classify_step (parse_resw_file f1) (tree_data_elements f1) (k, ev) ([], f1)) ! j"
    and "map_of (fst (classification en root)) k
           = map_of (fst (classify_step (parse_resw_file f1) (tree_data_elements f1) (k, ev) ([], f1))) k"
    by (simp_all add: classification_alt f1_def)
qed

lemma permanent_not_complete: "\<not> startswith status_complete status_error_permanent"
  by (simp add: startswith_def status_complete_def status_error_permanent_def)

lemma permanent_not_incomplete: "\<not> startswith status_incomplete status_error_permanent"
  by (simp add: startswith_def status_incomplete_def status_error_permanent_def)

lemma startswith_Nil [simp]:
  "\<not> startswith [] status_error_permanent" "\<not> startswith [] status_error_prefix"
  by (simp_all add: startswith_def status_error_permanent_def status_error_prefix_def)

lemma classification_key_of [simp]:
  "j < length root \<Longrightarrow> key_of (snd (classification en root) ! j) = key_of (root ! j)"
  by (simp add: key_of_def)

lemma sweep_elem_status:
  "get_comment_status (sweep_elem en b e) = get_comment_status e
   \<or> get_comment_status (sweep_elem en b e) = Some status_complete
   \<or> (get_comment_status e = None \<and> get_comment_status (sweep_elem en b e) = Some status_incomplete
       \<and> \<not> b \<and> (text_or_empty (name e) \<in> set (dict_keys en) \<longrightarrow>
                   current_value_of e = dict_get en (text_or_empty (name e)) []))"
  by (auto simp: sweep_elem_def Let_def split: option.splits)

lemma wsweep_not_permanent:
  "\<not> status_starts e status_error_permanent \<Longrightarrow>
   \<not> status_starts (wsweep en b e) status_error_permanent"
proof -
  assume a: "\<not> status_starts e status_error_permanent"
  have "status_starts (wsweep en b e) status_error_permanent
          = status_starts (sweep_elem en b e) status_error_permanent"
    by (simp add: wsweep_def status_starts_stored)
  moreover have "\<not> status_starts (sweep_elem en b e) status_error_permanent"
    using sweep_elem_status [of en b e] a
    by (auto simp: status_starts_def permanent_not_complete permanent_not_incomplete)
  ultimately show ?thesis by simp
qed

section \<open>Technical keys\<close>

text \<open>
  Claim C7. In a target store with unique keys, an element whose key is in the technical
  key set and in the reference store is never put on the work list, whatever its value,
  and its status at the end of the run is complete.
\<close>

theorem technical_key_immunity:
  assumes "unique_keys root" "j < length root" "key_of (root ! j) = Some k"
    "k \<in> set TECHNICAL_KEYS" "k \<in> fst ` set (parse_resw_file english_root)"
  shows "k \<notin> fst ` set (work_list (main_for_language translate english_root lang tr root))
       \<and> j < length (final_file (main_for_language translate english_root lang tr root))
       \<and> key_of (final_file (main_for_language translate english_root lang tr root) ! j) = Some k
       \<and> get_comment_status (final_file (main_for_language translate english_root lang tr root) ! j)
           = Some status_complete"
proof -
  let ?en = "parse_resw_file english_root"
  let ?final = "final_file (main_for_language translate english_root lang tr root)"
  let ?f1 = "map (wsweep ?en False) root"
  obtain ev where ev: "(k, ev) \<in> set ?en" using assms(5) by auto
  note ck = classification_key [OF assms(1-3) parse_distinct ev]
  have notin: "k \<notin> fst ` set (fst (classification ?en root))"
    using classification_keys [of ?en root] assms(4) by blast
  have nm: "name (root ! j) = Some k" using assms(3) by (simp add: key_of_Some)
  have "\<forall>k' \<in> fst ` set (fst (classification ?en root)). name (root ! j) \<noteq> Some k'"
    using notin nm by auto
  from run_frame [OF assms(2) this, of translate lang tr]
  have fin: "j < length ?final" "?final ! j = snd (classification ?en root) ! j"
    by (simp_all add: main_for_language_def)
  have l: "j < length ?f1" using assms(2) by simp
  have "snd (classify_step (parse_resw_file ?f1) (tree_data_elements ?f1) (k, ev) ([], ?f1)) ! j
          = set_comment_status (?f1 ! j) status_complete"
    using assms(4) ck(1) l
    by (simp add: classify_step_def Let_def mark_complete_if_present_def set_status_at_nth)
  with ck(4) fin(2) have "?final ! j = set_comment_status (?f1 ! j) status_complete" by simp
  then show ?thesis using notin fin(1) ck(3) assms(3) by (simp add: main_for_language_def)
qed

theorem technical_key_immunity_witness:
  "unique_keys [entry ''URLPresetButton.Content'' ''URL'' ''status:incomplete'',
                entry ''Farewell'' ''Bye'' ''status:incomplete'']
   \<and> key_of (entry ''URLPresetButton.Content'' ''URL'' ''status:incomplete'')
       = Some ''URLPresetButton.Content''
   \<and> ''URLPresetButton.Content'' \<in> set TECHNICAL_KEYS
   \<and> ''URLPresetButton.Content''
       \<in> fst ` set (parse_resw_file [bare_entry ''URLPresetButton.Content'' ''URL'',
                                      bare_entry ''Farewell'' ''Bye''])
   \<and> main_for_language (scripted [Translated ''Totsiens''])
         [bare_entry ''URLPresetButton.Content'' ''URL'', bare_entry ''Farewell'' ''Bye'']
         ''af-ZA'' (Some 0)
         [entry ''URLPresetButton.Content'' ''URL'' ''status:incomplete'',
          entry ''Farewell'' ''Bye'' ''status:incomplete'']
       = \<lparr>final_file = [entry ''URLPresetButton.Content'' ''URL'' ''status:complete'',
                         entry ''Farewell'' ''Totsiens'' ''status:complete''],
           work_list = [(''Farewell'', ''Bye'')], run_outcome = Done,
           run_log = [(''Farewell'', Inr (Some ''Totsiens''))], final_translator = Some 1\<rparr>"
  using technical_key_immunity
          [of "[entry ''URLPresetButton.Content'' ''URL'' ''status:incomplete'',
                entry ''Farewell'' ''Bye'' ''status:incomplete'']"
              0 "''URLPresetButton.Content''"
              "[bare_entry ''URLPresetButton.Content'' ''URL'', bare_entry ''Farewell'' ''Bye'']"
              "scripted [Translated ''Totsiens'']" "''af-ZA''" "Some 0"]
  by (simp add: run_technical) (simp add: small_defs notion_defs)

section \<open>Complete and permanently failed entries\<close>

text \<open>
  Claim C4, as far as the program keeps it. In a target store with unique keys, an
  element whose status when the classifier runs (after the first sweep of the run) is
  complete, or starts with \<open>status:error:permanent\<close>, is not put on the work list, and
  no translation is written to it: at the end of the run its value is the one the
  classifier saw. That value is not always the value the run started with: the first
  sweep has written the file and read it again, and a carriage return in the value has
  become a line feed, as the evaluation of a run on \<open>Goeie\rdag\<close> shows.
\<close>

theorem complete_or_permanent_value_kept:
  assumes "unique_keys root" "j < length root" "key_of (root ! j) = Some k"
    "get_comment_status (update_parsed_tree [] [] (parse_resw_file english_root) False root ! j)
       = Some status_complete
     \<or> status_starts (update_parsed_tree [] [] (parse_resw_file english_root) False root ! j)
          status_error_permanent"
  shows "k \<notin> fst ` set (work_list (main_for_language translate english_root lang tr root))
       \<and> j < length (final_file (main_for_language translate english_root lang tr root))
       \<and> key_of (final_file (main_for_language translate english_root lang tr root) ! j) = Some k
       \<and> value_elem (final_file (main_for_language translate english_root lang tr root) ! j)
           = value_elem (update_parsed_tree [] [] (parse_resw_file english_root) False root ! j)
       \<and> current_value_of (final_file (main_for_language translate english_root lang tr root) ! j)
           = universal_newlines (current_value_of (root ! j))"
proof -
  let ?en = "parse_resw_file english_root"
  let ?final = "final_file (main_for_language translate english_root lang tr root)"
  let ?f1 = "map (wsweep ?en False) root"
  have st: "get_comment_status (?f1 ! j) = Some status_complete
            \<or> status_starts (?f1 ! j) status_error_permanent"
    using assms(4) by (simp add: update_parsed_tree_nothing)
  have notin: "k \<notin> fst ` set (fst (classification ?en root))"
  proof (cases "k \<in> fst ` set ?en")
    case False
    then show ?thesis using classification_keys [of ?en root] by blast
  next
    case True
    then obtain ev where ev: "(k, ev) \<in> set ?en" by auto
    note ck = classification_key [OF assms(1-3) parse_distinct ev]
    have "map_of (fst (classify_step (parse_resw_file ?f1) (tree_data_elements ?f1) (k, ev) ([], ?f1))) k = None"
      using st ck(1)
      by (auto simp: classify_step_def Let_def status_starts_def truthy_def text_or_empty_def
            split: option.splits)
    with ck(5) show ?thesis by (simp add: not_in_keys_map_of)
  qed
  have nm: "name (root ! j) = Some k" using assms(3) by (simp add: key_of_Some)
  have "\<forall>k' \<in> fst ` set (fst (classification ?en root)). name (root ! j) \<noteq> Some k'"
    using notin nm by auto
  from run_frame [OF assms(2) this, of translate lang tr]
  have fin: "j < length ?final" "?final ! j = snd (classification ?en root) ! j"
    by (simp_all add: main_for_language_def)
  show ?thesis
    using notin fin assms(2,3) by (simp add: main_for_language_def update_parsed_tree_nothing)
qed

theorem complete_or_permanent_value_kept_witness:
  "unique_keys [entry ''Greeting'' (''Goeie'' @ [CHR 0x0D] @ ''dag'') ''status:complete'']
   \<and> key_of (entry ''Greeting'' (''Goeie'' @ [CHR 0x0D] @ ''dag'') ''status:complete'')
       = Some ''Greeting''
   \<and> get_comment_status
         (update_parsed_tree [] [] (parse_resw_file [bare_entry ''Greeting'' ''Good day'']) False
            [entry ''Greeting'' (''Goeie'' @ [CHR 0x0D] @ ''dag'') ''status:complete''] ! 0)
       = Some status_complete
   \<and> main_for_language (scripted []) [bare_entry ''Greeting'' ''Good day''] ''af-ZA'' (Some 0)
         [entry ''Greeting'' (''Goeie'' @ [CHR 0x0D] @ ''dag'') ''status:complete'']
       = \<lparr>final_file = [entry ''Greeting'' (''Goeie'' @ [CHR 0x0A] @ ''dag'') ''status:complete''],
           work_list = [], run_outcome = NoWork, run_log = [], final_translator = Some 0\<rparr>
   \<and> current_value_of (entry ''Greeting'' (''Goeie'' @ [CHR 0x0A] @ ''dag'') ''status:complete'')
       \<noteq> current_value_of (entry ''Greeting'' (''Goeie'' @ [CHR 0x0D] @ ''dag'') ''status:complete'')"
proof -
  have st: "get_comment_status
         (update_parsed_tree [] [] (parse_resw_file [bare_entry ''Greeting'' ''Good day'']) False
            [entry ''Greeting'' (''Goeie'' @ [CHR 0x0D] @ ''dag'') ''status:complete''] ! 0)
       = Some status_complete"
    by code_simp
  have facts: "unique_keys [entry ''Greeting'' (''Goeie'' @ [CHR 0x0D] @ ''dag'') ''status:complete'']"
    "key_of (entry ''Greeting'' (''Goeie'' @ [CHR 0x0D] @ ''dag'') ''status:complete'')
       = Some ''Greeting''"
    "current_value_of (entry ''Greeting'' (''Goeie'' @ [CHR 0x0A] @ ''dag'') ''status:complete'')
       \<noteq> current_value_of (entry ''Greeting'' (''Goeie'' @ [CHR 0x0D] @ ''dag'') ''status:complete'')"
    by code_simp+
  from complete_or_permanent_value_kept
          [of "[entry ''Greeting'' (''Goeie'' @ [CHR 0x0D] @ ''dag'') ''status:complete'']"
              0 "''Greeting''" "[bare_entry ''Greeting'' ''Good day'']"
              "scripted []" "''af-ZA''" "Some 0"]
    st facts run_carriage_return
  show ?thesis by simp
qed

section \<open>A value that differs from the reference value\<close>

text \<open>
  Claim C1, as amended. In a target store with unique keys, an entry whose value holds
  no carriage return and differs from the reference value of its key, and whose stored
  status does not start with \<open>status:error:permanent\<close>, is never put on the work list,
  keeps its value, and has status complete at the end of the run, whatever other status
  it had.
\<close>

theorem divergence_marks_complete:
  assumes "unique_keys root" "j < length root" "key_of (root ! j) = Some k"
    "is_entry (root ! j)" "(k, ev) \<in> set (parse_resw_file english_root)"
    "current_value_of (root ! j) \<noteq> ev" "CHR 0x0D \<notin> set (current_value_of (root ! j))"
    "\<not> status_starts (root ! j) status_error_permanent"
  shows "k \<notin> fst ` set (work_list (main_for_language translate english_root lang tr root))
       \<and> j < length (final_file (main_for_language translate english_root lang tr root))
       \<and> key_of (final_file (main_for_language translate english_root lang tr root) ! j) = Some k
       \<and> current_value_of (final_file (main_for_language translate english_root lang tr root) ! j)
           = current_value_of (root ! j)
       \<and> get_comment_status (final_file (main_for_language translate english_root lang tr root) ! j)
           = Some status_complete"
proof -
  let ?en = "parse_resw_file english_root"
  let ?final = "final_file (main_for_language translate english_root lang tr root)"
  let ?f1 = "map (wsweep ?en False) root"
  let ?step = "classify_step (parse_resw_file ?f1) (tree_data_elements ?f1) (k, ev) ([], ?f1)"
  note ck = classification_key [OF assms(1-3) parse_distinct assms(5)]
  have l: "j < length ?f1" using assms(2) by simp
  obtain t where t: "value_elem (root ! j) = Some t" using assms(4) by (auto simp: is_entry_def)
  have cv: "current_value_of (root ! j) = text_or_empty t"
    using t by (simp add: current_value_of_def)
  have same: "universal_newlines (current_value_of (root ! j)) = current_value_of (root ! j)"
    using assms(7) by (rule universal_newlines_fixed)
  have np: "\<not> status_starts (?f1 ! j) status_error_permanent"
    using wsweep_not_permanent [OF assms(8)] ck(3) by simp
  have te: "map_of (parse_resw_file ?f1) k = Some (current_value_of (root ! j))"
    using ck(2) t cv same by simp
  have step_u: "fst ?step = []"
    using np ck(1) te assms(6)
    by (auto simp: classify_step_def Let_def status_starts_def truthy_def text_or_empty_def
          split: option.splits)
  have step_r: "get_comment_status (snd ?step ! j) = Some status_complete
                \<and> current_value_of (snd ?step ! j) = current_value_of (?f1 ! j)
                \<and> key_of (snd ?step ! j) = key_of (?f1 ! j)"
    using np ck(1) te assms(6) l
    by (auto simp: classify_step_def Let_def status_starts_def truthy_def text_or_empty_def
          mark_complete_if_present_def set_status_at_nth split: option.splits)
  have notin: "k \<notin> fst ` set (fst (classification ?en root))"
    using ck(5) step_u by (simp add: not_in_keys_map_of)
  have nm: "name (root ! j) = Some k" using assms(3) by (simp add: key_of_Some)
  have "\<forall>k' \<in> fst ` set (fst (classification ?en root)). name (root ! j) \<noteq> Some k'"
    using notin nm by auto
  from run_frame [OF assms(2) this, of translate lang tr]
  have fin: "j < length ?final" "?final ! j = snd (classification ?en root) ! j"
    by (simp_all add: main_for_language_def)
  have "get_comment_status (?final ! j) = Some status_complete
        \<and> current_value_of (?final ! j) = current_value_of (root ! j)
        \<and> key_of (?final ! j) = Some k"
    using fin(2) ck(3,4) step_r same assms(3) by simp
  then show ?thesis
    using notin fin(1) by (simp add: main_for_language_def)
qed

theorem divergence_marks_complete_witness:
  "unique_keys [entry ''Greeting'' ''Goeie dag'' ''status:error:Translation failed'']
   \<and> key_of (entry ''Greeting'' ''Goeie dag'' ''status:error:Translation failed'') = Some ''Greeting''
   \<and> is_entry (entry ''Greeting'' ''Goeie dag'' ''status:error:Translation failed'')
   \<and> (''Greeting'', ''Hello'') \<in> set (parse_resw_file [bare_entry ''Greeting'' ''Hello''])
   \<and> current_value_of (entry ''Greeting'' ''Goeie dag'' ''status:error:Translation failed'')
       = ''Goeie dag''
   \<and> \<not> status_starts (entry ''Greeting'' ''Goeie dag'' ''status:error:Translation failed'')
           status_error_permanent
   \<and> main_for_language (scripted []) [bare_entry ''Greeting'' ''Hello''] ''af-ZA'' (Some 0)
         [entry ''Greeting'' ''Goeie dag'' ''status:error:Translation failed'']
       = \<lparr>final_file = [entry ''Greeting'' ''Goeie dag'' ''status:complete''],
           work_list = [], run_outcome = NoWork, run_log = [], final_translator = Some 0\<rparr>"
  using divergence_marks_complete
          [of "[entry ''Greeting'' ''Goeie dag'' ''status:error:Translation failed'']"
              0 "''Greeting''" "''Hello''"
              "[bare_entry ''Greeting'' ''Hello'']"
              "scripted []" "''af-ZA''" "Some 0"]
  by (simp add: run_divergent) (simp add: small_defs notion_defs)

theorem divergence_marks_complete_counterexample:
  "current_value_of (entry ''Greeting'' ''Goeie dag'' ''status:error:permanent'')
     \<noteq> dict_get (parse_resw_file [bare_entry ''Greeting'' ''Hello'']) ''Greeting'' []
   \<and> main_for_language (scripted []) [bare_entry ''Greeting'' ''Hello''] ''af-ZA'' (Some 0)
         [entry ''Greeting'' ''Goeie dag'' ''status:error:permanent'']
       = \<lparr>final_file = [entry ''Greeting'' ''Goeie dag'' ''status:error:permanent''],
           work_list = [], run_outcome = NoWork, run_log = [], final_translator = Some 0\<rparr>
   \<and> get_comment_status (entry ''Greeting'' ''Goeie dag'' ''status:error:permanent'')
       \<noteq> Some status_complete"
  by (simp add: run_divergent_permanent) (simp add: small_defs notion_defs)


end
